theory Spec2Isabelle
  imports Main "HOL-Library.Word"
begin

section \<open>Image attachments of a decision (package mcp)\<close>

text \<open>
  The gateway answers an approved or denied tool call with a JSON object; image files
  named by the decision are read from disk, base64-encoded and inlined. This section
  embeds \<open>detectMimeType\<close> and \<open>encodeImages\<close> together with the three library
  functions they call: \<open>filepath.Ext\<close>, \<open>strings.ToLower\<close> and
  \<open>base64.StdEncoding.EncodeToString\<close>. Go strings are byte sequences, so a string is
  a \<open>char list\<close> (one \<open>char\<close> per byte) and file contents are lists of 8-bit words.
\<close>

type_synonym byte = "8 word"

text \<open>The disk, as \<open>os.ReadFile\<close> sees it: \<open>None\<close> is a non-nil error.\<close>

type_synonym filesystem = "string \<Rightarrow> byte list option"

record EncodedImage =
  MimeType :: string
  Data :: string

subsection \<open>filepath.Ext\<close>

text \<open>
  Go scans the path from its last byte towards the first, stops at a path separator and
  returns the suffix starting at the first dot it meets:
  \<^verbatim>\<open>for i := len(path) - 1; i >= 0 && !os.IsPathSeparator(path[i]); i-- {
      if path[i] == '.' { return path[i:] } }
  return ""\<close>
  \<open>Ext_scan\<close> walks the reversed path; its second argument is the suffix already passed.
\<close>

fun Ext_scan :: "string \<Rightarrow> string \<Rightarrow> string" where
  "Ext_scan [] suffix = []"
| "Ext_scan (c # cs) suffix =
     (if c = CHR ''/'' then []
      else if c = CHR ''.'' then c # suffix
      else Ext_scan cs (c # suffix))"

definition Ext :: "string \<Rightarrow> string" where
  "Ext path = Ext_scan (rev path) []"

subsection \<open>strings.ToLower\<close>

definition lower_byte :: "char \<Rightarrow> char" where
  "lower_byte c =
     (if 65 \<le> (of_char c :: nat) \<and> (of_char c :: nat) \<le> 90
      then char_of ((of_char c :: nat) + 32) else c)"

text \<open>
  On ASCII bytes \<open>ToLower\<close> adds \<open>'a' - 'A'\<close> to the upper-case letters. On other
  input Go maps each rune through \<open>unicode.ToLower\<close>; two runes outside ASCII have an
  ASCII lower case: U+0130 (bytes C4 B0) becomes \<open>i\<close> and U+212A (bytes E2 84 AA)
  becomes \<open>k\<close>. Every other byte above 7F is kept here as it is: Go replaces such a rune
  by another rune outside ASCII, which no comparison with an ASCII constant can tell
  apart from the original.
\<close>

fun ToLower :: "string \<Rightarrow> string" where
  "ToLower (a # b # c # cs) =
     (if a = CHR 0xE2 \<and> b = CHR 0x84 \<and> c = CHR 0xAA then CHR ''k'' # ToLower cs
      else if a = CHR 0xC4 \<and> b = CHR 0xB0 then CHR ''i'' # ToLower (c # cs)
      else lower_byte a # ToLower (b # c # cs))"
| "ToLower [a, b] =
     (if a = CHR 0xC4 \<and> b = CHR 0xB0 then [CHR ''i'']
      else [lower_byte a, lower_byte b])"
| "ToLower [a] = [lower_byte a]"
| "ToLower [] = []"

subsection \<open>base64.StdEncoding.EncodeToString\<close>

definition encodeStd :: string where
  "encodeStd = ''ABCDEFGHIJKLMNOPQRSTUVWXYZabcdefghijklmnopqrstuvwxyz0123456789+/''"

text \<open>
  Three input bytes form a 24-bit value \<open>val\<close>, written as four 6-bit digits
  (\<open>val >> 18 & 0x3F\<close> is \<open>val div 2 ^ 18 mod 64\<close>); a last group of one or two bytes
  is padded with \<open>=\<close>.
\<close>

definition sextet :: "nat \<Rightarrow> nat \<Rightarrow> char" where
  "sextet val shift = encodeStd ! (val div 2 ^ shift mod 64)"

fun EncodeToString :: "byte list \<Rightarrow> string" where
  "EncodeToString (a # b # c # src) =
     (let val = unat a * 2 ^ 16 + unat b * 2 ^ 8 + unat c
      in [sextet val 18, sextet val 12, sextet val 6, sextet val 0] @ EncodeToString src)"
| "EncodeToString [a, b] =
     (let val = unat a * 2 ^ 16 + unat b * 2 ^ 8
      in [sextet val 18, sextet val 12, sextet val 6, CHR ''=''])"
| "EncodeToString [a] =
     (let val = unat a * 2 ^ 16
      in [sextet val 18, sextet val 12, CHR ''='', CHR ''=''])"
| "EncodeToString [] = []"

subsection \<open>detectMimeType and encodeImages\<close>

definition detectMimeType :: "string \<Rightarrow> string" where
  "detectMimeType path =
     (let ext = ToLower (Ext path)
      in if ext = ''.png'' then ''image/png''
         else if ext = ''.jpg'' \<or> ext = ''.jpeg'' then ''image/jpeg''
         else if ext = ''.gif'' then ''image/gif''
         else if ext = ''.webp'' then ''image/webp''
         else [])"

text \<open>
  The loop of \<open>encodeImages\<close>: \<open>encoded\<close> is the slice built so far, \<open>continue\<close> is the
  recursive call that leaves it unchanged.
\<close>

fun encodeImages_loop :: "filesystem \<Rightarrow> string list \<Rightarrow> EncodedImage list \<Rightarrow> EncodedImage list" where
  "encodeImages_loop fs [] encoded = encoded"
| "encodeImages_loop fs (path # rest) encoded =
     (case fs path of
        None \<Rightarrow> encodeImages_loop fs rest encoded
      | Some data \<Rightarrow>
          (let mimeType = detectMimeType path
           in if mimeType = [] then encodeImages_loop fs rest encoded
              else encodeImages_loop fs rest
                     (encoded @ [\<lparr>MimeType = mimeType, Data = EncodeToString data\<rparr>])))"

definition encodeImages :: "filesystem \<Rightarrow> string list \<Rightarrow> EncodedImage list" where
  "encodeImages fs imagePaths = encodeImages_loop fs imagePaths []"

text \<open>
  The table of image types in the words of the specification: the supported extensions
  and the MIME type of each.
\<close>

definition mime_table :: "(string \<times> string) list" where
  "mime_table =
     [(''.png'', ''image/png''), (''.jpg'', ''image/jpeg''), (''.jpeg'', ''image/jpeg''),
      (''.gif'', ''image/gif''), (''.webp'', ''image/webp'')]"

text \<open>
  One path in the words of the specification: skipped (\<open>None\<close>) when the file cannot be
  read or the lower-cased extension is not in the table, otherwise the MIME type of the
  extension with the base64 text of the file.
\<close>

definition encoded_image :: "filesystem \<Rightarrow> string \<Rightarrow> EncodedImage option" where
  "encoded_image fs path =
     (case (fs path, map_of mime_table (ToLower (Ext path))) of
        (Some bytes, Some mime) \<Rightarrow> Some \<lparr>MimeType = mime, Data = EncodeToString bytes\<rparr>
      | _ \<Rightarrow> None)"

section \<open>The approval gateway (package mcp)\<close>

subsection \<open>Data\<close>

text \<open>
  Values of Go's \<open>interface{}\<close> as they occur in tool arguments and in event payloads:
  \<open>AStrings\<close> is a \<open>[]string\<close>, \<open>AList\<close> a \<open>[]interface{}\<close>, \<open>AObject\<close> a JSON object.
\<close>

datatype any =
    AString string
  | ABool bool
  | ANumber int
  | AStrings "string list"
  | AList "any list"
  | AObject "(string \<times> any) list"

record ApprovalDecision =
  Approved :: bool
  Comment :: string
  ImagePaths :: "string list"

text \<open>
  An event of the bus: its \<open>Type\<close> tag and its \<open>Data\<close> map, named \<open>EvType\<close> and
  \<open>EvData\<close> here.
\<close>

record Event =
  EvType :: string
  EvData :: "string \<rightharpoonup> any"

text \<open>The part of an approval record that the gateway reads.\<close>

record Approval =
  ID :: string
  Status :: string

text \<open>
  The values put into \<open>responseData\<close>, a \<open>map[string]interface{}\<close>: strings, the
  caller's \<open>input\<close> (\<open>None\<close> is \<open>nil\<close>: the argument was absent) and the encoded
  images. A \<open>CallToolResult\<close> holds one text content, the JSON text of \<open>responseData\<close>;
  the embedding keeps the map that is marshalled.
\<close>

datatype rvalue =
    RString string
  | RInput "any option"
  | RImages "EncodedImage list"

type_synonym responseData = "string \<rightharpoonup> rvalue"

datatype CallToolResult = TextContent responseData

datatype error =
    MissingSessionID
  | MarshalInputFailed
  | CreateApprovalFailed string
  | CtxErr

type_synonym result = "error + CallToolResult"

text \<open>
  A channel is a heap object: the handler keeps the address it got from \<open>make\<close> and
  \<open>pendingApprovals\<close> (a \<open>sync.Map\<close>) stores the same address under the tool-use id.
  \<open>chans\<close> gives the buffered values of each channel; every channel here is made with
  capacity 1. \<open>nchans\<close> is the next unused address.
\<close>

record MCPServer =
  autoDenyAll :: bool
  pendingApprovals :: "string \<rightharpoonup> nat"
  chans :: "nat \<Rightarrow> ApprovalDecision list"
  nchans :: nat

definition Getenv :: "(string \<rightharpoonup> string) \<Rightarrow> string \<Rightarrow> string" where
  "Getenv env key = (case env key of None \<Rightarrow> [] | Some v \<Rightarrow> v)"

definition NewMCPServer :: "(string \<rightharpoonup> string) \<Rightarrow> MCPServer" where
  "NewMCPServer env =
     (let autoDeny = (Getenv env ''MCP_AUTO_DENY_ALL'' = ''true'')
      in \<lparr>autoDenyAll = autoDeny, pendingApprovals = Map.empty, chans = (\<lambda>_. []), nchans = 0\<rparr>)"

subsection \<open>ServeHTTP: the session id of a request\<close>

definition Header_Get :: "(string \<rightharpoonup> string) \<Rightarrow> string \<Rightarrow> string" where
  "Header_Get header key = (case header key of None \<Rightarrow> [] | Some v \<Rightarrow> v)"

text \<open>
  \<open>ServeHTTP\<close> stores a session id in the request context under \<open>sessionIDKey\<close>, an
  empty one when neither header is there; \<open>Some\<close> is a context that has the key.
\<close>

definition ServeHTTP :: "(string \<rightharpoonup> string) \<Rightarrow> string option" where
  "ServeHTTP header =
     (let sessionID = Header_Get header ''X-Session-ID'';
          sessionID = (if sessionID = []
                       then (let mcpSessionID = Header_Get header ''Mcp-Session-Id''
                             in if mcpSessionID \<noteq> [] then mcpSessionID else sessionID)
                       else sessionID)
      in Some sessionID)"

subsection \<open>handleRequestApproval\<close>

text \<open>\<open>request.GetString(key, "")\<close>: the argument if it is a string, the default otherwise.\<close>

definition GetString :: "(string \<rightharpoonup> any) \<Rightarrow> string \<Rightarrow> string" where
  "GetString arguments key = (case arguments key of Some (AString s) \<Rightarrow> s | _ \<Rightarrow> [])"

definition denyAllResponse :: responseData where
  "denyAllResponse =
     [''behavior'' \<mapsto> RString ''deny'', ''message'' \<mapsto> RString ''Auto-denied for testing'']"

definition allowResponse :: "any option \<Rightarrow> responseData" where
  "allowResponse input = [''behavior'' \<mapsto> RString ''allow'', ''updatedInput'' \<mapsto> RInput input]"

text \<open>
  The handler up to the point where it decides whether to wait. The approval manager is
  an interface: \<open>create\<close> is its \<open>CreateApprovalWithToolUseID\<close>, acting on a manager
  state of any type, so the handler can change that state through \<open>create\<close> only.
  \<open>marshal\<close> is \<open>json.Marshal\<close> on the input (\<open>None\<close>: it returned an error). The
  context \<open>ctx\<close> is the value under \<open>sessionIDKey\<close>, if any. The result is \<open>Some\<close>
  when the handler returns here and \<open>None\<close> when it goes on to register a channel.
\<close>

definition handleRequestApproval_create ::
  "(any option \<Rightarrow> string option) \<Rightarrow>
   ('am \<Rightarrow> string \<Rightarrow> string \<Rightarrow> string \<Rightarrow> string \<Rightarrow> (string + Approval) \<times> 'am) \<Rightarrow>
   MCPServer \<Rightarrow> string option \<Rightarrow> (string \<rightharpoonup> any) \<Rightarrow> 'am \<Rightarrow> result option \<times> 'am" where
  "handleRequestApproval_create marshal create s ctx request am =
     (let toolName = GetString request ''tool_name'';
          input = request ''input'';
          toolUseID = GetString request ''tool_use_id''
      in if autoDenyAll s then (Some (Inr (TextContent denyAllResponse)), am)
         else
           (let sessionID = (case ctx of Some v \<Rightarrow> v | None \<Rightarrow> [])
            in if sessionID = [] then (Some (Inl MissingSessionID), am)
               else
                 (case marshal input of
                    None \<Rightarrow> (Some (Inl MarshalInputFailed), am)
                  | Some inputJSON \<Rightarrow>
                      (case create am sessionID toolName inputJSON toolUseID of
                         (Inl err, am') \<Rightarrow> (Some (Inl (CreateApprovalFailed err)), am')
                       | (Inr approval, am') \<Rightarrow>
                           if Status approval = ''approved''
                           then (Some (Inr (TextContent (allowResponse input))), am')
                           else (None, am')))))"

text \<open>\<open>decisionChan := make(chan ApprovalDecision, 1); s.pendingApprovals.Store(toolUseID, decisionChan)\<close>\<close>

definition handleRequestApproval_register :: "string \<Rightarrow> MCPServer \<Rightarrow> nat \<times> MCPServer" where
  "handleRequestApproval_register toolUseID s =
     (let decisionChan = nchans s
      in (decisionChan,
          s\<lparr>nchans := Suc (nchans s),
            chans := (chans s)(decisionChan := []),
            pendingApprovals := (pendingApprovals s)(toolUseID \<mapsto> decisionChan)\<rparr>))"

text \<open>The response built from a received decision.\<close>

definition decisionResponse :: "filesystem \<Rightarrow> any option \<Rightarrow> ApprovalDecision \<Rightarrow> responseData" where
  "decisionResponse fs input decision =
     (let responseData = [''behavior'' \<mapsto> RString ''deny'', ''message'' \<mapsto> RString (Comment decision)];
          responseData = (if Approved decision then allowResponse input else responseData)
      in if length (ImagePaths decision) > 0
         then (let images = encodeImages fs (ImagePaths decision)
               in if length images > 0 then responseData(''images'' \<mapsto> RImages images)
                  else responseData)
         else responseData)"

text \<open>
  The \<open>select\<close>: \<open>None\<close> when neither case is ready (the call stays blocked). When both
  are ready Go picks one at random; \<open>pick\<close> is that choice, true for the decision.
\<close>

definition handleRequestApproval_select ::
  "filesystem \<Rightarrow> any option \<Rightarrow> nat \<Rightarrow> bool \<Rightarrow> bool \<Rightarrow> MCPServer \<Rightarrow> (result \<times> MCPServer) option" where
  "handleRequestApproval_select fs input decisionChan ctxDone pick s =
     (case chans s decisionChan of
        [] \<Rightarrow> if ctxDone then Some (Inl CtxErr, s) else None
      | decision # buffered \<Rightarrow>
          if ctxDone \<and> \<not> pick then Some (Inl CtxErr, s)
          else Some (Inr (TextContent (decisionResponse fs input decision)),
                     s\<lparr>chans := (chans s)(decisionChan := buffered)\<rparr>))"

text \<open>\<open>defer s.pendingApprovals.Delete(toolUseID)\<close>, run when the handler returns.\<close>

definition handleRequestApproval_defer :: "string \<Rightarrow> MCPServer \<Rightarrow> MCPServer" where
  "handleRequestApproval_defer toolUseID s =
     s\<lparr>pendingApprovals := (pendingApprovals s)(toolUseID := None)\<rparr>"

subsection \<open>listenForApprovalDecisions\<close>

definition asString :: "any option \<Rightarrow> string" where
  "asString v = (case v of Some (AString s) \<Rightarrow> s | _ \<Rightarrow> [])"

definition asBool :: "any option \<Rightarrow> bool" where
  "asBool v = (case v of Some (ABool b) \<Rightarrow> b | _ \<Rightarrow> False)"

fun ifaceStrings :: "any list \<Rightarrow> string list" where
  "ifaceStrings [] = []"
| "ifaceStrings (AString s # ps) = s # ifaceStrings ps"
| "ifaceStrings (p # ps) = ifaceStrings ps"

definition eventImagePaths :: "any option \<Rightarrow> string list" where
  "eventImagePaths rawPaths =
     (case rawPaths of
        Some (AStrings paths) \<Rightarrow> paths
      | Some (AList ifacePaths) \<Rightarrow> ifaceStrings ifacePaths
      | _ \<Rightarrow> [])"

definition eventDecision :: "Event \<Rightarrow> ApprovalDecision" where
  "eventDecision event =
     \<lparr>Approved = asBool (EvData event ''approved''),
      Comment = asString (EvData event ''response_text''),
      ImagePaths = eventImagePaths (EvData event ''image_paths'')\<rparr>"

text \<open>
  The body of the loop for one received event. The send is the \<open>select\<close> with a
  \<open>default\<close> case: it succeeds when the buffer has room and is skipped otherwise.
\<close>

definition listenerEvent :: "Event \<Rightarrow> MCPServer \<Rightarrow> MCPServer" where
  "listenerEvent event s =
     (let toolUseID = asString (EvData event ''tool_use_id'')
      in if toolUseID = [] then s
         else
           (case pendingApprovals s toolUseID of
              None \<Rightarrow> s
            | Some ch \<Rightarrow>
                if length (chans s ch) < 1
                then s\<lparr>chans := (chans s)(ch := chans s ch @ [eventDecision event])\<rparr>
                else s))"

text \<open>
  The loop over the events the subscription delivers until the context ends or the
  channel is closed.
\<close>

fun listenForApprovalDecisions :: "Event list \<Rightarrow> MCPServer \<Rightarrow> MCPServer" where
  "listenForApprovalDecisions [] s = s"
| "listenForApprovalDecisions (event # events) s =
     listenForApprovalDecisions events (listenerEvent event s)"

section \<open>The ephemeral advisory query (package handlers)\<close>

text \<open>
  Field names that two Go structs share carry the struct's name here: \<open>Session.ID\<close> and
  \<open>Session.Status\<close> are \<open>SessionID\<close> and \<open>SessionStatus\<close>, the \<open>Query\<close> and
  \<open>WorkingDir\<close> of \<open>SessionConfig\<close> are \<open>ConfigQuery\<close> and \<open>ConfigWorkingDir\<close>, and
  the fields of the client's result are \<open>ResultError\<close> and \<open>ResultText\<close>.
\<close>

record Session =
  SessionID :: string
  Query :: string
  Summary :: string
  WorkingDir :: string
  SessionStatus :: string

record ConversationEvent =
  EventType :: string
  Role :: string
  Content :: string
  ToolName :: string

text \<open>\<open>MaxEvents\<close> is a Go \<open>int\<close>: a value from \<open>-2 ^ 63\<close> up to \<open>2 ^ 63 - 1\<close>.\<close>

record EphemeralChatRequest =
  Message :: string
  IncludeRecentEvents :: bool
  MaxEvents :: int

datatype Model = ModelSonnet | ModelOpus

datatype OutputFormat = OutputText | OutputJSON | OutputStreamJSON

record SessionConfig =
  ConfigQuery :: string
  ConfigModel :: Model
  ConfigOutputFormat :: OutputFormat
  MaxTurns :: int
  ConfigWorkingDir :: string

record ClaudeResult =
  IsError :: bool
  ResultError :: string
  ResultText :: string

text \<open>
  What the handler does to its caller: a JSON reply with a status code, either
  \<open>gin.H{"error": ...}\<close> or an \<open>EphemeralChatResponse\<close>, or a run-time panic.
\<close>

datatype body = ErrorBody string | ContentBody string

datatype reply = JSON nat body | Panic

text \<open>
  The outcome of one call: the reply, the configurations handed to
  \<open>LaunchAndWait\<close> in order, and the store after the call.
\<close>

record 'st outcome =
  response :: reply
  launched :: "SessionConfig list"
  store_after :: 'st

subsection \<open>Pieces of HandleEphemeralChat\<close>

definition Join :: "string list \<Rightarrow> string \<Rightarrow> string" where
  "Join elems sep = (case elems of [] \<Rightarrow> [] | e # es \<Rightarrow> e @ concat (map (\<lambda>x. sep @ x) es))"

text \<open>Lines 94 to 102: the context lines taken from the session record.\<close>

definition sessionContextParts :: "Session \<Rightarrow> string list" where
  "sessionContextParts session =
     (let contextParts = [''Session Query: '' @ Query session];
          contextParts = (if Summary session \<noteq> []
                          then contextParts @ [''Session Summary: '' @ Summary session]
                          else contextParts);
          contextParts = (if WorkingDir session \<noteq> []
                          then contextParts @ [''Working Directory: '' @ WorkingDir session]
                          else contextParts)
      in contextParts @ [''Session Status: '' @ SessionStatus session])"

text \<open>
  Lines 109 to 113: \<open>events[startIdx:]\<close>. The subtraction is the wrapping one of
  Go's 64-bit \<open>int\<close>; a \<open>startIdx\<close> outside \<open>0 .. len(events)\<close> makes the slice
  expression panic (\<open>None\<close>).
\<close>

definition wrap64 :: "int \<Rightarrow> int" where
  "wrap64 x = (x + 2 ^ 63) mod 2 ^ 64 - 2 ^ 63"

definition recentEvents :: "ConversationEvent list \<Rightarrow> int \<Rightarrow> ConversationEvent list option" where
  "recentEvents events maxEvents =
     (let startIdx = (if int (length events) > maxEvents
                      then wrap64 (int (length events) - maxEvents) else 0)
      in if startIdx < 0 \<or> int (length events) < startIdx then None
         else Some (drop (nat startIdx) events))"

text \<open>Lines 115 to 131: one summary line per message or tool call.\<close>

fun eventSummaries :: "ConversationEvent list \<Rightarrow> string list" where
  "eventSummaries [] = []"
| "eventSummaries (event # rest) =
     (if EventType event = ''message'' \<and> Content event \<noteq> []
      then (let role = (if Role event = ''assistant'' then ''Assistant'' else ''User'');
                content = (if length (Content event) > 500
                           then take 500 (Content event) @ ''...''
                           else Content event)
            in (role @ '': '' @ content) # eventSummaries rest)
      else if EventType event = ''tool_call'' \<and> ToolName event \<noteq> []
      then (''Tool Call: '' @ ToolName event) # eventSummaries rest
      else eventSummaries rest)"

text \<open>Lines 141 to 150: the prompt around the context and the question.\<close>

definition buildQuery :: "string \<Rightarrow> string \<Rightarrow> string" where
  "buildQuery sessionContext message =
     ''You are answering a clarifying question about a coding session.\<newline>'' @
     ''The user is reviewing a session and wants to understand what'' @ [CHR 0x27] @
     ''s happening before making a decision.\<newline>'' @
     ''Provide concise, helpful answers based on the context below.\<newline>\<newline>'' @
     ''Session Context:\<newline>'' @ sessionContext @
     ''\<newline>\<newline>User'' @ [CHR 0x27] @ ''s Question: '' @ message @
     ''\<newline>\<newline>Important: Keep your response focused and concise. This is an ephemeral chat.''"

subsection \<open>runEphemeralQuery and HandleEphemeralChat\<close>

text \<open>
  \<open>launch\<close> is the client's \<open>LaunchAndWait\<close>. The pair returned is the configuration
  passed to it and the function's own result.
\<close>

definition runEphemeralQuery ::
  "(SessionConfig \<Rightarrow> string + ClaudeResult) \<Rightarrow> Session \<Rightarrow> string \<Rightarrow> SessionConfig \<times> (string + string)" where
  "runEphemeralQuery launch session query =
     (let config = \<lparr>ConfigQuery = query, ConfigModel = ModelSonnet,
                     ConfigOutputFormat = OutputJSON, MaxTurns = 1,
                     ConfigWorkingDir = WorkingDir session\<rparr>
      in (config,
          case launch config of
            Inl err \<Rightarrow> Inl (''failed to run claude query: '' @ err)
          | Inr result \<Rightarrow>
              if IsError result then Inl (''claude returned error: '' @ ResultError result)
              else Inr (ResultText result)))"

text \<open>
  Lines 105 to 136: the recent conversation added to the context. \<open>conversation\<close> is the
  result of \<open>GetSessionConversation\<close> (\<open>None\<close>: it returned an error); the result is
  \<open>None\<close> when the slice expression panics.
\<close>

definition addRecentEvents ::
  "string list \<Rightarrow> ConversationEvent list option \<Rightarrow> int \<Rightarrow> string list option" where
  "addRecentEvents contextParts conversation maxEvents =
     (case conversation of
        None \<Rightarrow> Some contextParts
      | Some events \<Rightarrow>
          if length events > 0
          then (case recentEvents events maxEvents of
                  None \<Rightarrow> None
                | Some recent \<Rightarrow>
                    (let summaries = eventSummaries recent
                     in if length summaries > 0
                        then Some (contextParts @
                               [''\<newline>Recent Conversation:\<newline>'' @ Join summaries ''\<newline>''])
                        else Some contextParts))
          else Some contextParts)"

text \<open>
  The store is an interface of which the handler calls two read operations,
  \<open>GetSession\<close> and \<open>GetSessionConversation\<close> (\<open>None\<close>: the call returned an error).
  They are parameters over a store of any type. \<open>claudeClient\<close> is \<open>None\<close> for the nil
  client, \<open>req\<close> is \<open>None\<close> when \<open>ShouldBindJSON\<close> fails.
\<close>

definition HandleEphemeralChat ::
  "(SessionConfig \<Rightarrow> string + ClaudeResult) option \<Rightarrow>
   ('st \<Rightarrow> string \<Rightarrow> Session option) \<Rightarrow>
   ('st \<Rightarrow> string \<Rightarrow> ConversationEvent list option) \<Rightarrow>
   string \<Rightarrow> EphemeralChatRequest option \<Rightarrow> 'st \<Rightarrow> 'st outcome" where
  "HandleEphemeralChat claudeClient GetSession GetSessionConversation sessionID req st =
     (case claudeClient of
        None \<Rightarrow> \<lparr>response = JSON 503 (ErrorBody ''Claude Code not available''),
                 launched = [], store_after = st\<rparr>
      | Some launch \<Rightarrow>
     (case req of
        None \<Rightarrow> \<lparr>response = JSON 400 (ErrorBody ''Invalid request body''),
                 launched = [], store_after = st\<rparr>
      | Some req \<Rightarrow>
     if Message req = []
     then \<lparr>response = JSON 400 (ErrorBody ''Message is required''),
           launched = [], store_after = st\<rparr>
     else
       (let maxEvents = (if MaxEvents req = 0 then 20 else MaxEvents req)
        in case GetSession st sessionID of
             None \<Rightarrow> \<lparr>response = JSON 404 (ErrorBody ''Session not found''),
                      launched = [], store_after = st\<rparr>
           | Some session \<Rightarrow>
       (let contextParts = sessionContextParts session;
            contextParts =
              (if IncludeRecentEvents req
               then addRecentEvents contextParts (GetSessionConversation st sessionID) maxEvents
               else Some contextParts)
        in case contextParts of
             None \<Rightarrow> \<lparr>response = Panic, launched = [], store_after = st\<rparr>
           | Some contextParts \<Rightarrow>
       (let sessionContext = Join contextParts ''\<newline>'';
            query = buildQuery sessionContext (Message req)
        in case runEphemeralQuery launch session query of
             (config, Inl err) \<Rightarrow>
               \<lparr>response = JSON 500 (ErrorBody ''Failed to get AI response''),
                launched = [config], store_after = st\<rparr>
           | (config, Inr content) \<Rightarrow>
               \<lparr>response = JSON 200 (ContentBody content),
                launched = [config], store_after = st\<rparr>)))))"

text \<open>
  Vocabulary for statements about the handler: the number of events it is to look at
  (20 when the request gives 0), and the last \<open>n\<close> events of a conversation.
\<close>

definition effectiveMaxEvents :: "EphemeralChatRequest \<Rightarrow> int" where
  "effectiveMaxEvents req = (if MaxEvents req = 0 then 20 else MaxEvents req)"

definition lastEvents :: "int \<Rightarrow> ConversationEvent list \<Rightarrow> ConversationEvent list" where
  "lastEvents n events = drop (length events - nat n) events"

section \<open>The approval manager and the event bus\<close>

text \<open>
  Modelled from the spec: a subscription of the event bus (package \<open>bus\<close>, not among
  the sources), with its filter, a set of event types, and its bounded delivery channel.
\<close>

record Subscription =
  filter_types :: "string list"
  buffer :: "Event list"
  capacity :: nat

text \<open>
  Modelled from the spec: the event bus with its subscriptions. \<open>published\<close> records
  every event handed to \<open>Publish\<close>, oldest first.
\<close>

record Bus =
  published :: "Event list"
  subscriptions :: "Subscription list"

text \<open>
  Modelled from the spec: one delivery of \<open>Publish\<close>. A subscription whose filter
  matches receives its own copy of the event; when its channel is saturated the
  delivery is dropped.
\<close>

definition deliver :: "Event \<Rightarrow> Subscription \<Rightarrow> Subscription" where
  "deliver event sub =
     (if EvType event \<in> set (filter_types sub) \<and> length (buffer sub) < capacity sub
      then sub\<lparr>buffer := buffer sub @ [event]\<rparr> else sub)"

text \<open>
  Modelled from the spec: \<open>Publish\<close> of section 4.3, the fan-out to every subscription,
  none of which can hold up another.
\<close>

definition Publish :: "Event \<Rightarrow> Bus \<Rightarrow> Bus" where
  "Publish event bus =
     bus\<lparr>published := published bus @ [event],
         subscriptions := map (deliver event) (subscriptions bus)\<rparr>"

text \<open>
  Modelled from the spec: the approval record of section 3 as the approval manager
  (package \<open>approval\<close>, not among the sources) keeps it. The status is one of
  \<open>pending\<close>, \<open>approved\<close>, \<open>denied\<close>.
\<close>

record ApprovalRecord =
  ApprovalID :: string
  ApprovalSessionID :: string
  ApprovalToolName :: string
  ApprovalToolInput :: string
  ApprovalStatus :: string
  ApprovalComment :: string
  ApprovalAttachments :: "string list"

text \<open>
  Modelled from the spec: the state of the approval manager. It knows the sessions,
  holds one approval per tool-use id, finds the tool-use id of an approval id, and
  publishes on the bus.
\<close>

record Manager =
  sessions :: "string list"
  approvals :: "string \<rightharpoonup> ApprovalRecord"
  approvalIDs :: "string \<rightharpoonup> string"
  eventBus :: Bus

text \<open>
  Modelled from the spec: \<open>CreateApproval\<close> of section 4.2. It fails with
  \<open>SessionNotFound\<close> for an unknown session; where an auto-policy applies (\<open>policy\<close>
  gives \<open>Some True\<close> to approve, \<open>Some False\<close> to deny) the approval is created already
  resolved; otherwise it is created \<open>pending\<close> and stored before the call returns.
  Tool-use ids are unique per call; the spec says nothing of a second creation under
  one id, and here the new record takes the place of the old one.
\<close>

definition CreateApproval ::
  "(string \<Rightarrow> string \<Rightarrow> bool option) \<Rightarrow> Manager \<Rightarrow> string \<Rightarrow> string \<Rightarrow> string \<Rightarrow> string \<Rightarrow>
   (string + Approval) \<times> Manager" where
  "CreateApproval policy m sessionID toolName toolInput toolUseID =
     (if sessionID \<notin> set (sessions m) then (Inl ''SessionNotFound'', m)
      else
        (let status = (case policy sessionID toolName of
                         None \<Rightarrow> ''pending''
                       | Some True \<Rightarrow> ''approved''
                       | Some False \<Rightarrow> ''denied'');
             approval = \<lparr>ApprovalID = ''approval-'' @ toolUseID,
                         ApprovalSessionID = sessionID,
                         ApprovalToolName = toolName,
                         ApprovalToolInput = toolInput,
                         ApprovalStatus = status,
                         ApprovalComment = [],
                         ApprovalAttachments = []\<rparr>
         in (Inr \<lparr>ID = ApprovalID approval, Status = status\<rparr>,
             m\<lparr>approvals := (approvals m)(toolUseID \<mapsto> approval),
               approvalIDs := (approvalIDs m)(ApprovalID approval \<mapsto> toolUseID)\<rparr>)))"

text \<open>
  Modelled from the spec: the resolution event, carrying the tool-use id, the boolean
  outcome, the comment and the attachment references. The keys are the ones the
  gateway's listener reads.
\<close>

definition resolutionEvent :: "string \<Rightarrow> bool \<Rightarrow> string \<Rightarrow> string list \<Rightarrow> Event" where
  "resolutionEvent toolUseID approve comment attachments =
     \<lparr>EvType = ''approval_resolved'',
      EvData = [''tool_use_id'' \<mapsto> AString toolUseID, ''approved'' \<mapsto> ABool approve,
                ''response_text'' \<mapsto> AString comment, ''image_paths'' \<mapsto> AStrings attachments]\<rparr>"

text \<open>Modelled from the spec: the two failures of \<open>Decide\<close>.\<close>

datatype decide_error = NotFound | AlreadyResolved

text \<open>
  Modelled from the spec: the approval that the key of a \<open>Decide\<close> call addresses, an
  approval id or a tool-use id, as the tool-use id of that approval.
\<close>

definition resolveKey :: "Manager \<Rightarrow> string \<Rightarrow> string option" where
  "resolveKey m k =
     (case approvalIDs m k of
        Some toolUseID \<Rightarrow> Some toolUseID
      | None \<Rightarrow> if approvals m k = None then None else Some k)"

text \<open>
  Modelled from the spec: \<open>Decide\<close> of section 4.2, as one atomic transition of the
  manager (the spec asks that decision and publication appear atomic). It fails with
  \<open>NotFound\<close> when there is no approval, with \<open>AlreadyResolved\<close> when the approval is
  no longer pending, and otherwise commits the decision and publishes one event.
\<close>

definition Decide ::
  "string \<Rightarrow> bool \<Rightarrow> string \<Rightarrow> string list \<Rightarrow> Manager \<Rightarrow> (decide_error + unit) \<times> Manager" where
  "Decide k approve comment attachments m =
     (case resolveKey m k of
        None \<Rightarrow> (Inl NotFound, m)
      | Some toolUseID \<Rightarrow>
     (case approvals m toolUseID of
        None \<Rightarrow> (Inl NotFound, m)
      | Some approval \<Rightarrow>
          if ApprovalStatus approval \<noteq> ''pending'' then (Inl AlreadyResolved, m)
          else
            (Inr (),
             m\<lparr>approvals := (approvals m)(toolUseID \<mapsto>
                   approval\<lparr>ApprovalStatus := (if approve then ''approved'' else ''denied''),
                            ApprovalComment := comment,
                            ApprovalAttachments := attachments\<rparr>),
               eventBus := Publish (resolutionEvent toolUseID approve comment attachments)
                             (eventBus m)\<rparr>)))"

text \<open>
  A decision submission: the key, the decision, the comment and the attachments.
  \<open>DecideAll\<close> runs submissions one after the other, in the order in which concurrent
  callers get hold of the manager, and returns what each caller observes.
\<close>

record Submission =
  key :: string
  approve :: bool
  comment :: string
  attachments :: "string list"

fun DecideAll :: "Submission list \<Rightarrow> Manager \<Rightarrow> (decide_error + unit) list \<times> Manager" where
  "DecideAll [] m = ([], m)"
| "DecideAll (d # ds) m =
     (case Decide (key d) (approve d) (comment d) (attachments d) m of
        (r, m') \<Rightarrow> (case DecideAll ds m' of (rs, m'') \<Rightarrow> (r # rs, m'')))"

text \<open>
  Vocabulary for statements about a sequence of submissions: the events that carry a
  tool-use id, whether an approval is pending, its status, the submissions that address
  it, and what their callers observed.
\<close>

definition eventsFor :: "string \<Rightarrow> Event list \<Rightarrow> Event list" where
  "eventsFor toolUseID events =
     filter (\<lambda>e. asString (EvData e ''tool_use_id'') = toolUseID) events"

definition pendingAt :: "Manager \<Rightarrow> string \<Rightarrow> bool" where
  "pendingAt m toolUseID =
     (case approvals m toolUseID of None \<Rightarrow> False | Some a \<Rightarrow> ApprovalStatus a = ''pending'')"

definition statusAt :: "Manager \<Rightarrow> string \<Rightarrow> string option" where
  "statusAt m toolUseID = map_option ApprovalStatus (approvals m toolUseID)"

definition callsFor :: "Manager \<Rightarrow> string \<Rightarrow> Submission list \<Rightarrow> Submission list" where
  "callsFor m toolUseID ds = filter (\<lambda>d. resolveKey m (key d) = Some toolUseID) ds"

definition outcomesFor ::
  "Manager \<Rightarrow> string \<Rightarrow> Submission list \<Rightarrow> (decide_error + unit) list \<Rightarrow> (decide_error + unit) list" where
  "outcomesFor m toolUseID ds rs =
     map snd (filter (\<lambda>(d, r). resolveKey m (key d) = Some toolUseID) (zip ds rs))"

section \<open>One tool call among clients and the listener\<close>

text \<open>
  The gateway serves a call in a goroutine of its own, while clients submit decisions
  and the listener goroutine takes events from its subscription. The steps of the call
  that touch shared state are its atomic actions: \<open>CreateApprovalWithToolUseID\<close>, the
  \<open>Store\<close>, the \<open>select\<close> and the deferred \<open>Delete\<close>. \<open>pc\<close> is where the call stands:
  before the first statement, after an approval came back that is not approved, blocked
  in the \<open>select\<close> on a channel, past the \<open>select\<close> with the deferred call still to
  run, and returned.
\<close>

datatype pc =
    Start
  | Created
  | Waiting nat
  | Returning result
  | Returned result

text \<open>The gateway with one call in flight, over a manager state of any type.\<close>

record 'am Gateway =
  server :: MCPServer
  manager :: 'am
  call_pc :: pc
  ctxDone :: bool

text \<open>
  What stays fixed during a call: the disk, \<open>json.Marshal\<close> on the input, the context
  value and the arguments of the request.
\<close>

record Call =
  disk :: filesystem
  marshal :: "any option \<Rightarrow> string option"
  ctxSessionID :: "string option"
  arguments :: "string \<rightharpoonup> any"

text \<open>
  The next action of the call. \<open>create\<close> is the manager's
  \<open>CreateApprovalWithToolUseID\<close>; \<open>pick\<close> is the choice of a \<open>select\<close> with two ready
  cases. A call that returns before the \<open>defer\<close> statement has no deferred call to run.
\<close>

definition handlerStep ::
  "('am \<Rightarrow> string \<Rightarrow> string \<Rightarrow> string \<Rightarrow> string \<Rightarrow> (string + Approval) \<times> 'am) \<Rightarrow>
   Call \<Rightarrow> bool \<Rightarrow> 'am Gateway \<Rightarrow> 'am Gateway" where
  "handlerStep create c pick sys =
     (case call_pc sys of
        Start \<Rightarrow>
          (case handleRequestApproval_create (marshal c) create
                  (server sys) (ctxSessionID c) (arguments c) (manager sys) of
             (Some r, m') \<Rightarrow> sys\<lparr>manager := m', call_pc := Returned r\<rparr>
           | (None, m') \<Rightarrow> sys\<lparr>manager := m', call_pc := Created\<rparr>)
      | Created \<Rightarrow>
          (case handleRequestApproval_register (GetString (arguments c) ''tool_use_id'') (server sys) of
             (decisionChan, s') \<Rightarrow> sys\<lparr>server := s', call_pc := Waiting decisionChan\<rparr>)
      | Waiting decisionChan \<Rightarrow>
          (case handleRequestApproval_select (disk c) (arguments c ''input'') decisionChan
                  (ctxDone sys) pick (server sys) of
             None \<Rightarrow> sys
           | Some (r, s') \<Rightarrow> sys\<lparr>server := s', call_pc := Returning r\<rparr>)
      | Returning r \<Rightarrow>
          sys\<lparr>server := handleRequestApproval_defer (GetString (arguments c) ''tool_use_id'') (server sys),
              call_pc := Returned r\<rparr>
      | Returned r \<Rightarrow> sys)"

text \<open>
  The whole system: the gateway over the manager of the previous section.
  \<open>HandlerStep\<close> is the next action of the call, \<open>ClientDecide\<close> a decision submitted
  by a client, \<open>ListenerStep\<close> one turn of the listener's loop on the first subscription
  of the bus (the one the gateway made), \<open>CancelCall\<close> the end of the call's context.
\<close>

type_synonym System = "Manager Gateway"

datatype action =
    HandlerStep bool
  | ClientDecide Submission
  | ListenerStep
  | CancelCall

definition listenerStep :: "System \<Rightarrow> System" where
  "listenerStep sys =
     (case subscriptions (eventBus (manager sys)) of
        [] \<Rightarrow> sys
      | sub # subs \<Rightarrow>
          (case buffer sub of
             [] \<Rightarrow> sys
           | event # events \<Rightarrow>
               sys\<lparr>server := listenerEvent event (server sys),
                   manager := (manager sys)\<lparr>eventBus := (eventBus (manager sys))
                      \<lparr>subscriptions := sub\<lparr>buffer := events\<rparr> # subs\<rparr>\<rparr>\<rparr>))"

fun step :: "(string \<Rightarrow> string \<Rightarrow> bool option) \<Rightarrow> Call \<Rightarrow> action \<Rightarrow> System \<Rightarrow> System" where
  "step policy c (HandlerStep pick) sys = handlerStep (CreateApproval policy) c pick sys"
| "step policy c (ClientDecide d) sys =
     sys\<lparr>manager := snd (Decide (key d) (approve d) (comment d) (attachments d) (manager sys))\<rparr>"
| "step policy c ListenerStep sys = listenerStep sys"
| "step policy c CancelCall sys = sys\<lparr>ctxDone := True\<rparr>"

fun run :: "(string \<Rightarrow> string \<Rightarrow> bool option) \<Rightarrow> Call \<Rightarrow> action list \<Rightarrow> System \<Rightarrow> System" where
  "run policy c [] sys = sys"
| "run policy c (a # as) sys = run policy c as (step policy c a sys)"

text \<open>
  A gateway started in the given environment, its listener subscribed to resolution
  events with a delivery channel of the given capacity, and a manager that knows the
  given sessions.
\<close>

definition initial :: "(string \<rightharpoonup> string) \<Rightarrow> string list \<Rightarrow> nat \<Rightarrow> System" where
  "initial env known cap =
     \<lparr>server = NewMCPServer env,
      manager = \<lparr>sessions = known, approvals = Map.empty, approvalIDs = Map.empty,
                 eventBus = \<lparr>published = [],
                             subscriptions = [\<lparr>filter_types = [''approval_resolved''],
                                               buffer = [], capacity = cap\<rparr>]\<rparr>\<rparr>,
      call_pc = Start, ctxDone = False\<rparr>"

section \<open>Example inputs\<close>

text \<open>
  A disk with one image and one text file, and a call of \<open>request_approval\<close> for the
  tool \<open>Bash\<close> with tool-use id \<open>t1\<close> in session \<open>S1\<close>.
\<close>

definition demo_disk :: filesystem where
  "demo_disk p =
     (if p = ''/img/a.PNG'' then Some [77, 97, 110]
      else if p = ''/img/notes.txt'' then Some [1] else None)"

definition demo_call :: Call where
  "demo_call =
     \<lparr>disk = demo_disk, marshal = (\<lambda>input. Some ''{}''), ctxSessionID = Some ''S1'',
      arguments = [''tool_name'' \<mapsto> AString ''Bash'', ''input'' \<mapsto> AObject [],
                   ''tool_use_id'' \<mapsto> AString ''t1'']\<rparr>"

definition no_policy :: "string \<Rightarrow> string \<Rightarrow> bool option" where
  "no_policy sessionID toolName = None"

definition deny_policy :: "string \<Rightarrow> string \<Rightarrow> bool option" where
  "deny_policy sessionID toolName = Some False"

definition approve_t1 :: Submission where
  "approve_t1 = \<lparr>key = ''t1'', approve = True, comment = ''looks fine'', attachments = []\<rparr>"

definition deny_by_id :: Submission where
  "deny_by_id = \<lparr>key = ''approval-t1'', approve = False, comment = ''no'', attachments = []\<rparr>"

text \<open>
  Runs from the initial state: the call registered and blocked; the same under a policy
  that denies on creation; and the run in which a client decides before the call has
  registered its channel.
\<close>

definition waiting_t1 :: System where
  "waiting_t1 = run no_policy demo_call [HandlerStep True, HandlerStep True] (initial Map.empty [''S1''] 8)"

definition denied_t1 :: System where
  "denied_t1 = run deny_policy demo_call [HandlerStep True, HandlerStep True, HandlerStep True] (initial Map.empty [''S1''] 8)"

definition auto_deny_env :: "string \<rightharpoonup> string" where
  "auto_deny_env = [''MCP_AUTO_DENY_ALL'' \<mapsto> ''true'']"

definition no_session_call :: Call where
  "no_session_call = demo_call\<lparr>ctxSessionID := ServeHTTP Map.empty\<rparr>"

definition approve_policy :: "string \<Rightarrow> string \<Rightarrow> bool option" where
  "approve_policy sessionID toolName = Some True"

definition racy_t1 :: System where
  "racy_t1 = run no_policy demo_call
      [HandlerStep True, ClientDecide approve_t1, ListenerStep, HandlerStep True, HandlerStep True]
      (initial Map.empty [''S1''] 8)"

text \<open>A session with three conversation events, in a store that maps session ids.\<close>

definition demo_session :: Session where
  "demo_session = \<lparr>SessionID = ''S1'', Query = ''fix the bug'', Summary = [],
                    WorkingDir = ''/w'', SessionStatus = ''running''\<rparr>"

definition demo_events :: "ConversationEvent list" where
  "demo_events =
     [\<lparr>EventType = ''message'', Role = ''user'', Content = ''first'', ToolName = []\<rparr>,
      \<lparr>EventType = ''tool_call'', Role = [], Content = [], ToolName = ''Bash''\<rparr>,
      \<lparr>EventType = ''message'', Role = ''assistant'', Content = ''done'', ToolName = []\<rparr>]"

definition demo_request :: EphemeralChatRequest where
  "demo_request = \<lparr>Message = ''why?'', IncludeRecentEvents = True, MaxEvents = 2\<rparr>"

definition echo_client :: "SessionConfig \<Rightarrow> string + ClaudeResult" where
  "echo_client config = Inr \<lparr>IsError = False, ResultError = [], ResultText = ConfigQuery config\<rparr>"

definition demo_store :: "string \<rightharpoonup> Session \<times> ConversationEvent list" where
  "demo_store = [''S1'' \<mapsto> (demo_session, demo_events)]"

definition storeGetSession :: "(string \<rightharpoonup> Session \<times> ConversationEvent list) \<Rightarrow> string \<Rightarrow> Session option" where
  "storeGetSession st sessionID = map_option fst (st sessionID)"

definition storeGetSessionConversation ::
  "(string \<rightharpoonup> Session \<times> ConversationEvent list) \<Rightarrow> string \<Rightarrow> ConversationEvent list option" where
  "storeGetSessionConversation st sessionID = map_option snd (st sessionID)"

text \<open>
  The events waiting in the subscriptions of the bus, and the state of a call on
  \<open>t1\<close> that waits on channel 0 for a resolution that cannot come any more: the
  approval is not pending and no waiting event carries the id.
\<close>

definition buffered :: "System \<Rightarrow> Event list" where
  "buffered sys = concat (map buffer (subscriptions (eventBus (manager sys))))"

definition stranded :: "System \<Rightarrow> bool" where
  "stranded sys =
     (call_pc sys = Waiting 0 \<and> \<not> ctxDone sys \<and> chans (server sys) 0 = []
      \<and> pendingApprovals (server sys) = [''t1'' \<mapsto> 0]
      \<and> \<not> pendingAt (manager sys) ''t1''
      \<and> eventsFor ''t1'' (buffered sys) = [])"

section \<open>Properties of the image encoding\<close>

lemma detectMimeType_table:
  "detectMimeType path =
     (case map_of mime_table (ToLower (Ext path)) of None \<Rightarrow> [] | Some mime \<Rightarrow> mime)"
  by (simp add: detectMimeType_def mime_table_def Let_def)

lemma detectMimeType_empty_iff:
  "detectMimeType path = [] \<longleftrightarrow> map_of mime_table (ToLower (Ext path)) = None"
  by (simp add: detectMimeType_def mime_table_def Let_def)

lemma encodeImages_loop_map_filter:
  "encodeImages_loop fs paths encoded = encoded @ List.map_filter (encoded_image fs) paths"
proof (induction paths arbitrary: encoded)
  case Nil
  show ?case by simp
next
  case (Cons path rest)
  show ?case
  proof (cases "fs path")
    case None
    then show ?thesis
      by (simp add: Cons.IH encoded_image_def)
  next
    case (Some bytes)
    show ?thesis
    proof (cases "map_of mime_table (ToLower (Ext path))")
      case None
      with Some show ?thesis
        by (simp add: Cons.IH encoded_image_def detectMimeType_table)
    next
      case (Some mime)
      have "mime \<noteq> []"
        using Some by (auto simp: mime_table_def split: if_splits)
      with Some \<open>fs path = Some bytes\<close> show ?thesis
        by (simp add: Cons.IH encoded_image_def detectMimeType_table)
    qed
  qed
qed

lemma length_map_filter_le: "length (List.map_filter f xs) \<le> length xs"
  by (induction xs) (auto simp: split: option.splits)

lemma encodeImages_map_filter:
  "encodeImages fs paths = List.map_filter (encoded_image fs) paths"
  by (simp add: encodeImages_def encodeImages_loop_map_filter)

text \<open>
  C10: \<open>encodeImages\<close> is defined on every list of paths and has no failing result. A
  path is skipped when its file cannot be read or when its extension, lower-cased, is
  not one of .png, .jpg, .jpeg, .gif, .webp; every other path gives, in input order, the
  MIME type of its extension and the standard base64 text of the file's bytes. The
  result is never longer than the input.
\<close>

theorem encodeImages_skips_and_encodes:
  "encodeImages fs paths = List.map_filter (encoded_image fs) paths
   \<and> length (encodeImages fs paths) \<le> length paths
   \<and> map fst mime_table = [''.png'', ''.jpg'', ''.jpeg'', ''.gif'', ''.webp'']"
  by (simp add: encodeImages_map_filter length_map_filter_le mime_table_def)

theorem encodeImages_skips_and_encodes_witness:
  "encodeImages demo_disk [''/img/missing.gif'', ''/img/a.PNG'', ''/img/notes.txt'']
   = [\<lparr>MimeType = ''image/png'', Data = ''TWFu''\<rparr>]"
proof -
  have m1: "map_of mime_table (ToLower (Ext ''/img/a.PNG'')) = Some ''image/png''"
    by code_simp
  have m2: "map_of mime_table (ToLower (Ext ''/img/notes.txt'')) = None"
    by code_simp
  have "List.map_filter (encoded_image demo_disk)
          [''/img/missing.gif'', ''/img/a.PNG'', ''/img/notes.txt'']
        = [\<lparr>MimeType = ''image/png'', Data = ''TWFu''\<rparr>]"
    by (simp add: encoded_image_def demo_disk_def m1 m2 sextet_def encodeStd_def)
  with encodeImages_skips_and_encodes
    [of demo_disk "[''/img/missing.gif'', ''/img/a.PNG'', ''/img/notes.txt'']"]
  show ?thesis by simp
qed

section \<open>The example runs, evaluated\<close>

lemma waiting_t1_eval:
  "waiting_t1 = \<lparr>server = \<lparr>autoDenyAll = False, pendingApprovals = [''t1'' \<mapsto> 0], chans = (\<lambda>_. []), nchans = Suc 0\<rparr>,
      manager = \<lparr>sessions = [''S1''], approvals = [''t1'' \<mapsto>
          \<lparr>ApprovalID = ''approval-t1'', ApprovalSessionID = ''S1'', ApprovalToolName = ''Bash'',
           ApprovalToolInput = ''{}'', ApprovalStatus = ''pending'', ApprovalComment = [], ApprovalAttachments = []\<rparr>],
                 approvalIDs = [''approval-t1'' \<mapsto> ''t1''],
                 eventBus = \<lparr>published = [],
                             subscriptions = [\<lparr>filter_types = [''approval_resolved''],
                                               buffer = [], capacity = 8\<rparr>]\<rparr>\<rparr>,
      call_pc = Waiting 0, ctxDone = False\<rparr>"
  by (simp add: waiting_t1_def initial_def NewMCPServer_def Getenv_def handlerStep_def
      handleRequestApproval_create_def demo_call_def GetString_def CreateApproval_def no_policy_def
      handleRequestApproval_register_def Let_def fun_upd_idem)

lemma racy_t1_eval:
  "racy_t1 = \<lparr>server = \<lparr>autoDenyAll = False, pendingApprovals = [''t1'' \<mapsto> 0], chans = (\<lambda>_. []), nchans = Suc 0\<rparr>,
      manager = \<lparr>sessions = [''S1''], approvals = [''t1'' \<mapsto>
          \<lparr>ApprovalID = ''approval-t1'', ApprovalSessionID = ''S1'', ApprovalToolName = ''Bash'',
           ApprovalToolInput = ''{}'', ApprovalStatus = ''approved'', ApprovalComment = ''looks fine'',
           ApprovalAttachments = []\<rparr>],
                 approvalIDs = [''approval-t1'' \<mapsto> ''t1''],
                 eventBus = \<lparr>published = [resolutionEvent ''t1'' True ''looks fine'' []],
                             subscriptions = [\<lparr>filter_types = [''approval_resolved''],
                                               buffer = [], capacity = 8\<rparr>]\<rparr>\<rparr>,
      call_pc = Waiting 0, ctxDone = False\<rparr>"
  by (simp add: racy_t1_def initial_def NewMCPServer_def Getenv_def handlerStep_def
      handleRequestApproval_create_def demo_call_def GetString_def CreateApproval_def no_policy_def
      handleRequestApproval_register_def handleRequestApproval_select_def Let_def
      approve_t1_def Decide_def resolveKey_def Publish_def deliver_def resolutionEvent_def
      listenerStep_def listenerEvent_def asString_def fun_upd_idem)

lemma demo_images:
  "encodeImages demo_disk [''/img/missing.gif'', ''/img/a.PNG'', ''/img/notes.txt'']
   = [\<lparr>MimeType = ''image/png'', Data = ''TWFu''\<rparr>]"
proof -
  have m1: "map_of mime_table (ToLower (Ext ''/img/a.PNG'')) = Some ''image/png''"
    by code_simp
  have m2: "map_of mime_table (ToLower (Ext ''/img/notes.txt'')) = None"
    by code_simp
  show ?thesis
    by (simp add: encodeImages_map_filter encoded_image_def demo_disk_def m1 m2 sextet_def encodeStd_def)
qed

section \<open>Properties of the approval manager\<close>

lemma eventsFor_append: "eventsFor t (xs @ ys) = eventsFor t xs @ eventsFor t ys"
  by (simp add: eventsFor_def)

lemma eventsFor_resolutionEvent:
  "eventsFor t [resolutionEvent k a c ps] = (if k = t then [resolutionEvent k a c ps] else [])"
  by (simp add: eventsFor_def resolutionEvent_def asString_def)

lemma resolveKey_Decide: "resolveKey (snd (Decide k a c ps m)) = resolveKey m"
  by (rule ext) (auto simp: Decide_def resolveKey_def split: option.splits)

lemma Decide_other:
  assumes "resolveKey m k \<noteq> Some t"
  shows "approvals (snd (Decide k a c ps m)) t = approvals m t"
    and "eventsFor t (published (eventBus (snd (Decide k a c ps m)))) = eventsFor t (published (eventBus m))"
  using assms
  by (auto simp: Decide_def Publish_def eventsFor_append eventsFor_resolutionEvent split: option.splits)

lemma Decide_pending:
  assumes "pendingAt m t" and "resolveKey m k = Some t"
  shows "fst (Decide k a c ps m) = Inr ()"
    and "statusAt (snd (Decide k a c ps m)) t = Some (if a then ''approved'' else ''denied'')"
    and "eventsFor t (published (eventBus (snd (Decide k a c ps m))))
           = eventsFor t (published (eventBus m)) @ [resolutionEvent t a c ps]"
  using assms
  by (auto simp: Decide_def Publish_def pendingAt_def statusAt_def eventsFor_append
      eventsFor_resolutionEvent split: option.splits)

lemma Decide_not_pending:
  assumes "\<not> pendingAt m t" and "resolveKey m k = Some t"
  shows "Decide k a c ps m = (Inl (if approvals m t = None then NotFound else AlreadyResolved), m)"
  using assms by (auto simp: Decide_def pendingAt_def split: option.splits)

lemma outcomesFor_Cons:
  "outcomesFor m t (d # ds) (r # rs)
     = (if resolveKey m (key d) = Some t then r # outcomesFor m t ds rs else outcomesFor m t ds rs)"
  by (simp add: outcomesFor_def)

lemma callsFor_Cons:
  "callsFor m t (d # ds)
     = (if resolveKey m (key d) = Some t then d # callsFor m t ds else callsFor m t ds)"
  by (simp add: callsFor_def)

lemma same_keys:
  assumes "resolveKey m' = resolveKey m"
  shows "outcomesFor m' t ds rs = outcomesFor m t ds rs" and "callsFor m' t ds = callsFor m t ds"
  using assms by (simp_all add: outcomesFor_def callsFor_def)

lemma DecideAll_Cons:
  "fst (DecideAll (d # ds) m) = fst (Decide (key d) (approve d) (comment d) (attachments d) m)
       # fst (DecideAll ds (snd (Decide (key d) (approve d) (comment d) (attachments d) m)))"
  "snd (DecideAll (d # ds) m) = snd (DecideAll ds (snd (Decide (key d) (approve d) (comment d) (attachments d) m)))"
  by (simp_all split: prod.splits)

lemma DecideAll_resolved:
  assumes "\<not> pendingAt m t"
  shows "outcomesFor m t ds (fst (DecideAll ds m))
           = map (\<lambda>_. Inl (if approvals m t = None then NotFound else AlreadyResolved)) (callsFor m t ds)
         \<and> approvals (snd (DecideAll ds m)) t = approvals m t
         \<and> eventsFor t (published (eventBus (snd (DecideAll ds m)))) = eventsFor t (published (eventBus m))"
  using assms
proof (induction ds arbitrary: m)
  case Nil
  show ?case by (simp add: outcomesFor_def callsFor_def)
next
  case (Cons d ds)
  let ?m' = "snd (Decide (key d) (approve d) (comment d) (attachments d) m)"
  have keys: "resolveKey ?m' = resolveKey m"
    by (rule resolveKey_Decide)
  show ?case
  proof (cases "resolveKey m (key d) = Some t")
    case True
    have same: "Decide (key d) (approve d) (comment d) (attachments d) m
                  = (Inl (if approvals m t = None then NotFound else AlreadyResolved), m)"
      using Cons.prems True by (rule Decide_not_pending)
    show ?thesis
      using Cons.IH [OF Cons.prems] True same
      by (simp add: DecideAll_Cons outcomesFor_Cons callsFor_Cons del: DecideAll.simps)
  next
    case False
    have a: "approvals ?m' t = approvals m t"
      and e: "eventsFor t (published (eventBus ?m')) = eventsFor t (published (eventBus m))"
      using False by (simp_all add: Decide_other)
    have "\<not> pendingAt ?m' t"
      using Cons.prems a by (simp add: pendingAt_def)
    from Cons.IH [OF this] show ?thesis
      using False a e
      by (simp add: DecideAll_Cons outcomesFor_Cons callsFor_Cons same_keys [OF keys]
          del: DecideAll.simps)
  qed
qed

lemma DecideAll_pending:
  assumes "pendingAt m t"
  shows "outcomesFor m t ds (fst (DecideAll ds m))
           = (case callsFor m t ds of [] \<Rightarrow> [] | d # rest \<Rightarrow> Inr () # map (\<lambda>_. Inl AlreadyResolved) rest)
         \<and> statusAt (snd (DecideAll ds m)) t
           = (case callsFor m t ds of [] \<Rightarrow> Some ''pending''
              | d # rest \<Rightarrow> Some (if approve d then ''approved'' else ''denied''))
         \<and> eventsFor t (published (eventBus (snd (DecideAll ds m))))
           = eventsFor t (published (eventBus m))
             @ (case callsFor m t ds of [] \<Rightarrow> []
                | d # rest \<Rightarrow> [resolutionEvent t (approve d) (comment d) (attachments d)])"
  using assms
proof (induction ds arbitrary: m)
  case Nil
  then show ?case
    by (auto simp: outcomesFor_def callsFor_def pendingAt_def statusAt_def split: option.splits)
next
  case (Cons d ds)
  let ?m' = "snd (Decide (key d) (approve d) (comment d) (attachments d) m)"
  have keys: "resolveKey ?m' = resolveKey m"
    by (rule resolveKey_Decide)
  show ?case
  proof (cases "resolveKey m (key d) = Some t")
    case True
    have r: "fst (Decide (key d) (approve d) (comment d) (attachments d) m) = Inr ()"
      and s: "statusAt ?m' t = Some (if approve d then ''approved'' else ''denied'')"
      and e: "eventsFor t (published (eventBus ?m'))
                = eventsFor t (published (eventBus m)) @ [resolutionEvent t (approve d) (comment d) (attachments d)]"
      using Cons.prems True by (simp_all add: Decide_pending)
    have np: "\<not> pendingAt ?m' t" and some: "approvals ?m' t \<noteq> None"
      using s by (auto simp: pendingAt_def statusAt_def split: option.splits if_splits)
    have rest: "outcomesFor ?m' t ds (fst (DecideAll ds ?m')) = map (\<lambda>_. Inl AlreadyResolved) (callsFor ?m' t ds)"
      "approvals (snd (DecideAll ds ?m')) t = approvals ?m' t"
      "eventsFor t (published (eventBus (snd (DecideAll ds ?m')))) = eventsFor t (published (eventBus ?m'))"
      using DecideAll_resolved [OF np, of ds] some by simp_all
    have st: "statusAt (snd (DecideAll ds ?m')) t = statusAt ?m' t"
      using rest(2) by (simp add: statusAt_def)
    show ?thesis
      using True r s e rest(1,3) st
      by (simp add: DecideAll_Cons outcomesFor_Cons callsFor_Cons same_keys [OF keys]
          del: DecideAll.simps)
  next
    case False
    have a: "approvals ?m' t = approvals m t"
      and e: "eventsFor t (published (eventBus ?m')) = eventsFor t (published (eventBus m))"
      using False by (simp_all add: Decide_other)
    have "pendingAt ?m' t"
      using Cons.prems a by (simp add: pendingAt_def)
    from Cons.IH [OF this] show ?thesis
      using False e
      by (simp add: DecideAll_Cons outcomesFor_Cons callsFor_Cons same_keys [OF keys]
          del: DecideAll.simps)
  qed
qed

text \<open>
  C3: among the decision submissions that reach the manager in any order, at most one
  of those that address a given tool-use id succeeds. When the approval is pending, the
  first of them succeeds and fixes the outcome, every later one observes
  \<open>AlreadyResolved\<close>, and exactly one resolution event for the id is published, the
  one of the first submission. When there is no pending approval, none succeeds, the
  approval is left as it is and no event is published.
\<close>

theorem at_most_one_decide_succeeds:
  "length (filter (\<lambda>r. r = Inr ()) (outcomesFor m t ds (fst (DecideAll ds m)))) \<le> 1
   \<and> (if pendingAt m t
       then outcomesFor m t ds (fst (DecideAll ds m))
              = (case callsFor m t ds of [] \<Rightarrow> []
                 | d # rest \<Rightarrow> Inr () # map (\<lambda>_. Inl AlreadyResolved) rest)
            \<and> statusAt (snd (DecideAll ds m)) t
              = (case callsFor m t ds of [] \<Rightarrow> Some ''pending''
                 | d # rest \<Rightarrow> Some (if approve d then ''approved'' else ''denied''))
            \<and> eventsFor t (published (eventBus (snd (DecideAll ds m))))
              = eventsFor t (published (eventBus m))
                @ (case callsFor m t ds of [] \<Rightarrow> []
                   | d # rest \<Rightarrow> [resolutionEvent t (approve d) (comment d) (attachments d)])
       else Inr () \<notin> set (outcomesFor m t ds (fst (DecideAll ds m)))
            \<and> approvals (snd (DecideAll ds m)) t = approvals m t
            \<and> eventsFor t (published (eventBus (snd (DecideAll ds m))))
              = eventsFor t (published (eventBus m)))"
proof (cases "pendingAt m t")
  case True
  note p = DecideAll_pending [OF True, of ds]
  have "length (filter (\<lambda>r. r = Inr ()) (outcomesFor m t ds (fst (DecideAll ds m)))) \<le> 1"
    using p by (cases "callsFor m t ds") (simp_all add: filter_empty_conv)
  with p True show ?thesis by simp
next
  case False
  note r = DecideAll_resolved [OF False, of ds]
  have none: "Inr () \<notin> set (outcomesFor m t ds (fst (DecideAll ds m)))"
    using r by auto
  then have "filter (\<lambda>r. r = Inr ()) (outcomesFor m t ds (fst (DecideAll ds m))) = []"
    by (auto simp: filter_empty_conv)
  with r none False show ?thesis by simp
qed

theorem at_most_one_decide_succeeds_witness:
  "fst (DecideAll [approve_t1, deny_by_id] (manager waiting_t1)) = [Inr (), Inl AlreadyResolved]
   \<and> statusAt (snd (DecideAll [approve_t1, deny_by_id] (manager waiting_t1))) ''t1'' = Some ''approved''
   \<and> published (eventBus (snd (DecideAll [approve_t1, deny_by_id] (manager waiting_t1))))
       = [resolutionEvent ''t1'' True ''looks fine'' []]"
proof -
  let ?ds = "[approve_t1, deny_by_id]"
  let ?m = "manager waiting_t1"
  have p: "pendingAt ?m ''t1''"
    by (simp add: waiting_t1_eval pendingAt_def)
  have k: "resolveKey ?m (key approve_t1) = Some ''t1''" "resolveKey ?m (key deny_by_id) = Some ''t1''"
    by (simp_all add: waiting_t1_eval resolveKey_def approve_t1_def deny_by_id_def)
  have c: "callsFor ?m ''t1'' ?ds = ?ds"
    by (simp add: callsFor_def k)
  have f: "approve approve_t1" "comment approve_t1 = ''looks fine''" "attachments approve_t1 = []"
    by (simp_all add: approve_t1_def)
  have o: "outcomesFor ?m ''t1'' ?ds (fst (DecideAll ?ds ?m)) = fst (DecideAll ?ds ?m)"
    by (simp add: outcomesFor_def k split: prod.splits)
  have e: "eventsFor ''t1'' (published (eventBus (snd (DecideAll ?ds ?m))))
             = published (eventBus (snd (DecideAll ?ds ?m)))"
    by (simp add: eventsFor_def waiting_t1_eval approve_t1_def deny_by_id_def Decide_def Publish_def
        resolveKey_def resolutionEvent_def asString_def split: prod.splits)
  have e0: "eventsFor ''t1'' (published (eventBus ?m)) = []"
    by (simp add: eventsFor_def waiting_t1_eval)
  have "outcomesFor ?m ''t1'' ?ds (fst (DecideAll ?ds ?m)) = [Inr (), Inl AlreadyResolved]
        \<and> statusAt (snd (DecideAll ?ds ?m)) ''t1'' = Some ''approved''
        \<and> eventsFor ''t1'' (published (eventBus (snd (DecideAll ?ds ?m))))
            = [resolutionEvent ''t1'' True ''looks fine'' []]"
    using at_most_one_decide_succeeds [of ?m "''t1''" ?ds] p
    by (simp add: c f e0 del: DecideAll.simps)
  then show ?thesis
    by (simp only: o e)
qed

section \<open>Properties of the gateway\<close>

subsection \<open>Single steps\<close>

lemma create_auto_deny:
  "autoDenyAll s \<Longrightarrow>
   handleRequestApproval_create mar create s ctx request am
     = (Some (Inr (TextContent denyAllResponse)), am)"
  by (simp add: handleRequestApproval_create_def)

lemma create_missing_session:
  assumes "ctx = None \<or> ctx = Some []"
  shows "handleRequestApproval_create mar create s ctx request am
     = (Some (if autoDenyAll s then Inr (TextContent denyAllResponse) else Inl MissingSessionID), am)"
  using assms by (auto simp: handleRequestApproval_create_def)

lemma ServeHTTP_empty_iff:
  "ServeHTTP header = Some [] \<longleftrightarrow>
     Header_Get header ''X-Session-ID'' = [] \<and> Header_Get header ''Mcp-Session-Id'' = []"
  by (auto simp: ServeHTTP_def Let_def)

lemma create_approved:
  assumes "\<not> autoDenyAll s" "ctx = Some sid" "sid \<noteq> []" "mar (request ''input'') = Some j"
    "create am sid (GetString request ''tool_name'') j (GetString request ''tool_use_id'') = (Inr a, am')"
  shows "handleRequestApproval_create mar create s ctx request am
     = (if Status a = ''approved'' then Some (Inr (TextContent (allowResponse (request ''input'')))) else None, am')"
  using assms by (simp add: handleRequestApproval_create_def Let_def)

lemma created_step:
  assumes "call_pc sys = Created"
  shows "handlerStep create c pick sys
     = sys\<lparr>server := (server sys)\<lparr>nchans := Suc (nchans (server sys)),
              chans := (chans (server sys))(nchans (server sys) := []),
              pendingApprovals := (pendingApprovals (server sys))
                 (GetString (arguments c) ''tool_use_id'' \<mapsto> nchans (server sys))\<rparr>,
           call_pc := Waiting (nchans (server sys))\<rparr>"
  using assms by (simp add: handlerStep_def handleRequestApproval_register_def Let_def)

lemma listenerEvent_unmatched:
  assumes "pendingApprovals s (asString (EvData e ''tool_use_id'')) = None"
  shows "listenerEvent e s = s"
  using assms by (simp add: listenerEvent_def Let_def)

lemma listenerEvent_full:
  assumes "pendingApprovals s (asString (EvData e ''tool_use_id'')) = Some ch" "chans s ch \<noteq> []"
  shows "listenerEvent e s = s"
  using assms by (simp add: listenerEvent_def Let_def)

lemma listenerEvent_deliver:
  assumes "pendingApprovals s (asString (EvData e ''tool_use_id'')) = Some ch" "chans s ch = []"
     "asString (EvData e ''tool_use_id'') \<noteq> []"
  shows "listenerEvent e s = s\<lparr>chans := (chans s)(ch := [eventDecision e])\<rparr>"
  using assms by (simp add: listenerEvent_def Let_def)

lemma select_ready:
  assumes "done \<or> chans s ch \<noteq> []"
  shows "\<exists>r s'. handleRequestApproval_select fs input ch done pick s = Some (r, s')
           \<and> pendingApprovals s' = pendingApprovals s"
  using assms
  by (cases "chans s ch") (auto simp: handleRequestApproval_select_def)

lemma select_fires:
  assumes "ctxDone sys \<or> chans (server sys) ch \<noteq> []" "call_pc sys = Waiting ch"
  shows "\<exists>r s'. handlerStep create c pick sys = sys\<lparr>server := s', call_pc := Returning r\<rparr>
           \<and> pendingApprovals s' = pendingApprovals (server sys)"
proof -
  obtain r s' where
    "handleRequestApproval_select (disk c) (arguments c ''input'') ch (ctxDone sys) pick (server sys)
       = Some (r, s')"
    and "pendingApprovals s' = pendingApprovals (server sys)"
    using select_ready [OF assms(1)] by blast
  then have "handlerStep create c pick sys = sys\<lparr>server := s', call_pc := Returning r\<rparr>
             \<and> pendingApprovals s' = pendingApprovals (server sys)"
    using assms(2) by (simp add: handlerStep_def)
  then show ?thesis by blast
qed

lemma returning_step:
  assumes "call_pc sys = Returning r"
  shows "handlerStep create c pick sys
     = sys\<lparr>server := handleRequestApproval_defer (GetString (arguments c) ''tool_use_id'') (server sys),
           call_pc := Returned r\<rparr>"
  using assms by (simp add: handlerStep_def)

lemma returned_step:
  assumes "call_pc sys = Returned r"
  shows "handlerStep create c pick sys = sys"
  using assms by (simp add: handlerStep_def)

subsection \<open>Auto-deny-all\<close>

text \<open>
  C5: with the global auto-deny-all mode enabled (the environment variable
  \<open>MCP_AUTO_DENY_ALL\<close> set to \<open>true\<close> when the server is made), the first action of a
  \<open>request_approval\<close> call is its return with behavior \<open>deny\<close>. Nothing else of the
  system changes: the manager holds no new approval record, the lookup of wait
  handles has no new entry, and the call never reaches the blocking \<open>select\<close>.
\<close>

theorem auto_deny_all_answers_deny:
  assumes "autoDenyAll (server sys)" and "call_pc sys = Start"
  shows "handlerStep create c pick sys = sys\<lparr>call_pc := Returned (Inr (TextContent denyAllResponse))\<rparr>
         \<and> denyAllResponse ''behavior'' = Some (RString ''deny'')
         \<and> autoDenyAll (NewMCPServer env) = (env ''MCP_AUTO_DENY_ALL'' = Some ''true'')"
proof -
  have "autoDenyAll (NewMCPServer env) = (env ''MCP_AUTO_DENY_ALL'' = Some ''true'')"
    by (cases "env ''MCP_AUTO_DENY_ALL''") (simp_all add: NewMCPServer_def Getenv_def)
  then show ?thesis
    using assms by (simp add: handlerStep_def create_auto_deny denyAllResponse_def)
qed

theorem auto_deny_all_answers_deny_witness:
  "handlerStep (CreateApproval no_policy) demo_call True (initial auto_deny_env [''S1''] 8)
     = (initial auto_deny_env [''S1''] 8)\<lparr>call_pc := Returned (Inr (TextContent denyAllResponse))\<rparr>
   \<and> approvals (manager (handlerStep (CreateApproval no_policy) demo_call True (initial auto_deny_env [''S1''] 8))) = Map.empty
   \<and> pendingApprovals (server (handlerStep (CreateApproval no_policy) demo_call True (initial auto_deny_env [''S1''] 8))) = Map.empty"
proof -
  have a: "autoDenyAll (server (initial auto_deny_env [''S1''] 8))"
    by (simp add: initial_def NewMCPServer_def Getenv_def auto_deny_env_def)
  have b: "call_pc (initial auto_deny_env [''S1''] 8) = Start"
    by (simp add: initial_def)
  show ?thesis
  proof -
    have "handlerStep (CreateApproval no_policy) demo_call True (initial auto_deny_env [''S1''] 8)
            = (initial auto_deny_env [''S1''] 8)\<lparr>call_pc := Returned (Inr (TextContent denyAllResponse))\<rparr>"
      using auto_deny_all_answers_deny
        [OF a b, where create = "CreateApproval no_policy" and c = demo_call and pick = True
           and env = auto_deny_env]
      by (rule conjunct1)
    then show ?thesis
      by (simp add: initial_def NewMCPServer_def)
  qed
qed

subsection \<open>The missing session id\<close>

text \<open>
  C4, as amended: when the transport carries no session id (no context value, or
  \<open>ServeHTTP\<close> found both headers absent or empty), the call returns at once and the
  manager is untouched, so no approval record is created. With auto-deny-all off the
  result is the error for the missing session id; with auto-deny-all on the deny answer
  is given first and the session id is never looked at.
\<close>

theorem missing_session_fails_unless_auto_deny:
  assumes "ctx = None \<or> ctx = ServeHTTP header"
    and "Header_Get header ''X-Session-ID'' = []"
    and "Header_Get header ''Mcp-Session-Id'' = []"
  shows "handleRequestApproval_create mar create s ctx request am
     = (Some (if autoDenyAll s then Inr (TextContent denyAllResponse) else Inl MissingSessionID), am)"
proof -
  have "ServeHTTP header = Some []"
    using assms(2,3) by (simp add: ServeHTTP_empty_iff)
  with assms(1) have "ctx = None \<or> ctx = Some []" by auto
  then show ?thesis by (rule create_missing_session)
qed

theorem missing_session_fails_unless_auto_deny_witness:
  "handlerStep (CreateApproval no_policy) no_session_call True (initial Map.empty [''S1''] 8)
     = (initial Map.empty [''S1''] 8)\<lparr>call_pc := Returned (Inl MissingSessionID)\<rparr>"
proof -
  have h: "ctxSessionID no_session_call = None \<or> ctxSessionID no_session_call = ServeHTTP Map.empty"
    by (simp add: no_session_call_def)
  have x: "Header_Get Map.empty ''X-Session-ID'' = []" by (simp add: Header_Get_def)
  have m: "Header_Get Map.empty ''Mcp-Session-Id'' = []" by (simp add: Header_Get_def)
  show ?thesis
    using missing_session_fails_unless_auto_deny [OF h x m,
      of "marshal no_session_call" "CreateApproval no_policy" "server (initial Map.empty [''S1''] 8)"
         "arguments no_session_call" "manager (initial Map.empty [''S1''] 8)"]
    by (simp add: handlerStep_def initial_def NewMCPServer_def Getenv_def)
qed

text \<open>
  The claim as stated fails with auto-deny-all on: a request without session id is
  answered \<open>deny\<close>, not failed.
\<close>

theorem missing_session_auto_deny_counterexample:
  "ctxSessionID no_session_call = Some []
   \<and> handlerStep (CreateApproval no_policy) no_session_call True (initial auto_deny_env [''S1''] 8)
     = (initial auto_deny_env [''S1''] 8)\<lparr>call_pc := Returned (Inr (TextContent denyAllResponse))\<rparr>
   \<and> call_pc (handlerStep (CreateApproval no_policy) no_session_call True (initial auto_deny_env [''S1''] 8))
     \<noteq> Returned (Inl MissingSessionID)"
  by (simp add: no_session_call_def ServeHTTP_def Header_Get_def handlerStep_def initial_def
      NewMCPServer_def Getenv_def auto_deny_env_def handleRequestApproval_create_def)

subsection \<open>Approvals resolved on creation\<close>

text \<open>
  C2, as amended: when \<open>CreateApprovalWithToolUseID\<close> returns an approval whose status
  is \<open>approved\<close>, the call returns at once with behavior \<open>allow\<close> and the original
  input, and the lookup of wait handles is as before. For any other status, \<open>denied\<close>
  included, the call goes on to register a wait handle under its tool-use id.
\<close>

theorem approved_returns_allow_else_registers:
  assumes "call_pc sys = Start" and "\<not> autoDenyAll (server sys)"
    and "ctxSessionID c = Some sid" and "sid \<noteq> []"
    and "marshal c (arguments c ''input'') = Some j"
    and "create (manager sys) sid (GetString (arguments c) ''tool_name'') j
           (GetString (arguments c) ''tool_use_id'') = (Inr a, am')"
  shows "handlerStep create c pick sys
     = sys\<lparr>manager := am',
           call_pc := (if Status a = ''approved''
                       then Returned (Inr (TextContent
                              [''behavior'' \<mapsto> RString ''allow'', ''updatedInput'' \<mapsto> RInput (arguments c ''input'')]))
                       else Created)\<rparr>
     \<and> pendingApprovals (server (handlerStep create c pick' (handlerStep create c pick sys)))
          (GetString (arguments c) ''tool_use_id'')
       = (if Status a = ''approved'' then pendingApprovals (server sys) (GetString (arguments c) ''tool_use_id'')
          else Some (nchans (server sys)))
     \<and> (call_pc (handlerStep create c pick' (handlerStep create c pick sys)) = Waiting (nchans (server sys)))
       = (Status a \<noteq> ''approved'')"
proof -
  have 1: "handlerStep create c pick sys
     = sys\<lparr>manager := am',
           call_pc := (if Status a = ''approved''
                       then Returned (Inr (TextContent (allowResponse (arguments c ''input''))))
                       else Created)\<rparr>"
    using assms by (simp add: handlerStep_def handleRequestApproval_create_def Let_def)
  show ?thesis
  proof (cases "Status a = ''approved''")
    case True
    then show ?thesis
      using 1 by (simp add: allowResponse_def returned_step)
  next
    case False
    then show ?thesis
      using 1 by (simp add: created_step)
  qed
qed

theorem approved_returns_allow_else_registers_witness:
  "handlerStep (CreateApproval approve_policy) demo_call True (initial Map.empty [''S1''] 8)
     = (initial Map.empty [''S1''] 8)
         \<lparr>manager := snd (CreateApproval approve_policy (manager (initial Map.empty [''S1''] 8)) ''S1'' ''Bash'' ''{}'' ''t1''),
          call_pc := Returned (Inr (TextContent
                              [''behavior'' \<mapsto> RString ''allow'', ''updatedInput'' \<mapsto> RInput (Some (AObject []))]))\<rparr>"
proof -
  let ?sys = "initial Map.empty [''S1''] 8"
  have 1: "call_pc ?sys = Start" by (simp add: initial_def)
  have 2: "\<not> autoDenyAll (server ?sys)" by (simp add: initial_def NewMCPServer_def Getenv_def)
  have 3: "ctxSessionID demo_call = Some ''S1''" by (simp add: demo_call_def)
  have 4: "''S1'' \<noteq> []" by simp
  have 5: "marshal demo_call (arguments demo_call ''input'') = Some ''{}''" by (simp add: demo_call_def)
  have 6: "CreateApproval approve_policy (manager ?sys) ''S1'' (GetString (arguments demo_call) ''tool_name'') ''{}''
           (GetString (arguments demo_call) ''tool_use_id'')
       = (Inr \<lparr>ID = ''approval-t1'', Status = ''approved''\<rparr>,
          snd (CreateApproval approve_policy (manager ?sys) ''S1'' ''Bash'' ''{}'' ''t1''))"
    by (simp add: CreateApproval_def approve_policy_def initial_def demo_call_def GetString_def Let_def)
  show ?thesis
    using approved_returns_allow_else_registers
      [where create = "CreateApproval approve_policy" and c = demo_call and sys = "?sys"
         and pick = True and pick' = True, OF 1 2 3 4 5 6]
    by (simp add: demo_call_def)
qed

text \<open>
  The claim as stated fails for an approval created already denied: the call registers
  a wait handle and blocks on it.
\<close>

theorem denied_approval_registers_counterexample:
  "map_option ApprovalStatus (approvals (manager denied_t1) ''t1'') = Some ''denied''
   \<and> call_pc denied_t1 = Waiting 0
   \<and> pendingApprovals (server denied_t1) ''t1'' = Some 0"
  by (simp add: denied_t1_def initial_def NewMCPServer_def Getenv_def handlerStep_def
      handleRequestApproval_create_def demo_call_def GetString_def CreateApproval_def deny_policy_def
      handleRequestApproval_register_def handleRequestApproval_select_def Let_def)

subsection \<open>Events without a waiting call\<close>

text \<open>
  C8: when the listener receives a resolution event for which no wait handle is
  registered under the event's tool-use id, or whose handle's one-slot channel is
  already full, the delivery is skipped: the gateway's state is unchanged and the loop
  goes on with the events that follow. The loop body has no failing branch: every value
  in the lookup is a channel of decisions and the gateway never closes a channel.
\<close>

theorem listener_skips_unmatched_or_full:
  assumes "pendingApprovals s (asString (EvData e ''tool_use_id'')) = None
           \<or> (\<exists>ch. pendingApprovals s (asString (EvData e ''tool_use_id'')) = Some ch \<and> length (chans s ch) \<ge> 1)"
  shows "listenerEvent e s = s
         \<and> listenForApprovalDecisions (e # es) s = listenForApprovalDecisions es s"
proof -
  have "listenerEvent e s = s"
    using assms by (auto simp: listenerEvent_unmatched intro: listenerEvent_full)
  then show ?thesis by simp
qed

theorem listener_skips_unmatched_or_full_witness:
  "listenForApprovalDecisions
     [resolutionEvent ''gone'' True [] [], resolutionEvent ''t1'' False ''no'' []] (server waiting_t1)
   = listenForApprovalDecisions [resolutionEvent ''t1'' False ''no'' []] (server waiting_t1)"
proof -
  have "pendingApprovals (server waiting_t1)
          (asString (EvData (resolutionEvent ''gone'' True [] []) ''tool_use_id'')) = None"
    by (simp add: waiting_t1_eval resolutionEvent_def asString_def)
  then show ?thesis
    using listener_skips_unmatched_or_full
      [of "server waiting_t1" "resolutionEvent ''gone'' True [] []"
          "[resolutionEvent ''t1'' False ''no'' []]"]
    by blast
qed

subsection \<open>Deregistration\<close>

text \<open>
  C6: a call that is blocked on its registered wait handle and whose wait ends, by a
  delivered decision or by the end of its context, runs the deferred \<open>Delete\<close> as its
  next action and then has returned; afterwards the lookup has no entry for the call's
  tool-use id, the call takes no further action (the handle is removed once), and a
  later resolution event carrying that tool-use id leaves the gateway unchanged: it is
  delivered to no one.
\<close>

theorem wait_handle_deregistered_once:
  assumes "call_pc sys = Waiting ch"
    and "ctxDone sys \<or> chans (server sys) ch \<noteq> []"
    and "asString (EvData e ''tool_use_id'') = GetString (arguments c) ''tool_use_id''"
  shows "(\<exists>r. call_pc (handlerStep create c pick' (handlerStep create c pick sys)) = Returned r)
       \<and> pendingApprovals (server (handlerStep create c pick' (handlerStep create c pick sys)))
            (GetString (arguments c) ''tool_use_id'') = None
       \<and> handlerStep create c pick'' (handlerStep create c pick' (handlerStep create c pick sys))
            = handlerStep create c pick' (handlerStep create c pick sys)
       \<and> listenerEvent e (server (handlerStep create c pick' (handlerStep create c pick sys)))
            = server (handlerStep create c pick' (handlerStep create c pick sys))"
proof -
  obtain r s' where 1: "handlerStep create c pick sys = sys\<lparr>server := s', call_pc := Returning r\<rparr>"
    using select_fires [OF assms(2) assms(1)] by blast
  let ?sys1 = "sys\<lparr>server := s', call_pc := Returning r\<rparr>"
  have 2: "handlerStep create c pick' ?sys1
     = ?sys1\<lparr>server := handleRequestApproval_defer (GetString (arguments c) ''tool_use_id'') (server ?sys1),
             call_pc := Returned r\<rparr>"
    by (rule returning_step) simp
  let ?sys2 = "handlerStep create c pick' ?sys1"
  have pc2: "call_pc ?sys2 = Returned r" by (simp add: 2)
  have gone: "pendingApprovals (server ?sys2) (GetString (arguments c) ''tool_use_id'') = None"
    by (simp add: 2 handleRequestApproval_defer_def)
  have stay: "handlerStep create c pick'' ?sys2 = ?sys2"
    using pc2 by (rule returned_step)
  have nobody: "listenerEvent e (server ?sys2) = server ?sys2"
    using gone assms(3) by (simp add: listenerEvent_unmatched)
  show ?thesis
    unfolding 1 using pc2 gone stay nobody by blast
qed

theorem wait_handle_deregistered_once_witness:
  "(\<exists>r. call_pc (handlerStep (CreateApproval no_policy) demo_call True
            (handlerStep (CreateApproval no_policy) demo_call True (waiting_t1\<lparr>ctxDone := True\<rparr>))) = Returned r)
   \<and> pendingApprovals (server (handlerStep (CreateApproval no_policy) demo_call True
            (handlerStep (CreateApproval no_policy) demo_call True (waiting_t1\<lparr>ctxDone := True\<rparr>)))) ''t1'' = None"
proof -
  have pc: "call_pc (waiting_t1\<lparr>ctxDone := True\<rparr>) = Waiting 0"
    by (simp add: waiting_t1_eval)
  have fire: "ctxDone (waiting_t1\<lparr>ctxDone := True\<rparr>) \<or> chans (server (waiting_t1\<lparr>ctxDone := True\<rparr>)) 0 \<noteq> []"
    by simp
  have ev: "asString (EvData (resolutionEvent ''t1'' True [] []) ''tool_use_id'')
              = GetString (arguments demo_call) ''tool_use_id''"
    by (simp add: resolutionEvent_def asString_def GetString_def demo_call_def)
  have t1: "GetString (arguments demo_call) ''tool_use_id'' = ''t1''"
    by (simp add: GetString_def demo_call_def)
  show ?thesis
    using wait_handle_deregistered_once [OF pc fire ev, of "CreateApproval no_policy" True True True]
    by (simp add: t1)
qed

subsection \<open>The response to a decision\<close>

text \<open>
  C7: a call blocked on its wait handle, to which the listener delivers a resolution
  event, answers as follows. An approved decision gives behavior \<open>allow\<close> with
  \<open>updatedInput\<close> the original input; a denied one gives behavior \<open>deny\<close> with
  \<open>message\<close> the comment of the decision. The images that \<open>encodeImages\<close> returns for
  the decision's paths, each a MIME type with base64 data, are added under \<open>images\<close>
  when there is at least one.
\<close>

theorem decision_translated_to_response:
  assumes "call_pc sys = Waiting ch"
    and "pendingApprovals (server sys) (asString (EvData e ''tool_use_id'')) = Some ch"
    and "asString (EvData e ''tool_use_id'') \<noteq> []"
    and "chans (server sys) ch = []"
    and "\<not> ctxDone sys \<or> pick"
  shows "handlerStep create c pick (sys\<lparr>server := listenerEvent e (server sys)\<rparr>)
     = sys\<lparr>call_pc := Returning (Inr (TextContent
          ((if asBool (EvData e ''approved'')
            then [''behavior'' \<mapsto> RString ''allow'', ''updatedInput'' \<mapsto> RInput (arguments c ''input'')]
            else [''behavior'' \<mapsto> RString ''deny'',
                  ''message'' \<mapsto> RString (asString (EvData e ''response_text''))])
           ++ (case encodeImages (disk c) (eventImagePaths (EvData e ''image_paths'')) of
                 [] \<Rightarrow> Map.empty
               | img # imgs \<Rightarrow> [''images'' \<mapsto> RImages (img # imgs)]))))\<rparr>"
proof -
  let ?s = "server sys"
  let ?d = "eventDecision e"
  have deliver: "listenerEvent e ?s = ?s\<lparr>chans := (chans ?s)(ch := [?d])\<rparr>"
    using assms(2,4,3) by (rule listenerEvent_deliver)
  have "(chans ?s)(ch := []) = chans ?s"
    using assms(4) by (simp add: fun_upd_idem)
  then have same: "?s\<lparr>chans := (chans ?s)(ch := [])\<rparr> = ?s"
    by simp
  have sel: "handleRequestApproval_select (disk c) (arguments c ''input'') ch (ctxDone sys) pick
               (?s\<lparr>chans := (chans ?s)(ch := [?d])\<rparr>)
             = Some (Inr (TextContent (decisionResponse (disk c) (arguments c ''input'') ?d)), ?s)"
    using assms(5) by (auto simp: handleRequestApproval_select_def same)
  have resp: "decisionResponse (disk c) (arguments c ''input'') ?d
      = (if asBool (EvData e ''approved'')
            then [''behavior'' \<mapsto> RString ''allow'', ''updatedInput'' \<mapsto> RInput (arguments c ''input'')]
            else [''behavior'' \<mapsto> RString ''deny'',
                  ''message'' \<mapsto> RString (asString (EvData e ''response_text''))])
           ++ (case encodeImages (disk c) (eventImagePaths (EvData e ''image_paths'')) of
                 [] \<Rightarrow> Map.empty
               | img # imgs \<Rightarrow> [''images'' \<mapsto> RImages (img # imgs)])"
  proof (cases "encodeImages (disk c) (eventImagePaths (EvData e ''image_paths''))")
    case Nil
    then show ?thesis
      by (simp add: decisionResponse_def eventDecision_def allowResponse_def Let_def)
  next
    case (Cons img imgs)
    then have "eventImagePaths (EvData e ''image_paths'') \<noteq> []"
      by (auto simp: encodeImages_def)
    with Cons show ?thesis
      by (simp add: decisionResponse_def eventDecision_def allowResponse_def Let_def)
  qed
  show ?thesis
    using assms(1) by (simp add: handlerStep_def deliver sel resp)
qed

theorem decision_translated_to_response_witness:
  "handlerStep (CreateApproval no_policy) demo_call True
     (waiting_t1\<lparr>server := listenerEvent
        (resolutionEvent ''t1'' True ''looks fine'' [''/img/missing.gif'', ''/img/a.PNG'', ''/img/notes.txt''])
        (server waiting_t1)\<rparr>)
   = waiting_t1\<lparr>call_pc := Returning (Inr (TextContent
        [''behavior'' \<mapsto> RString ''allow'', ''updatedInput'' \<mapsto> RInput (Some (AObject [])),
         ''images'' \<mapsto> RImages [\<lparr>MimeType = ''image/png'', Data = ''TWFu''\<rparr>]]))\<rparr>"
proof -
  let ?e = "resolutionEvent ''t1'' True ''looks fine'' [''/img/missing.gif'', ''/img/a.PNG'', ''/img/notes.txt'']"
  have tid: "asString (EvData ?e ''tool_use_id'') = ''t1''"
    by (simp add: resolutionEvent_def asString_def)
  have 1: "call_pc waiting_t1 = Waiting 0" by (simp add: waiting_t1_eval)
  have 2: "pendingApprovals (server waiting_t1) (asString (EvData ?e ''tool_use_id'')) = Some 0"
    by (simp add: tid waiting_t1_eval)
  have 3: "asString (EvData ?e ''tool_use_id'') \<noteq> []" by (simp add: tid)
  have 4: "chans (server waiting_t1) 0 = []" by (simp add: waiting_t1_eval)
  have 5: "\<not> ctxDone waiting_t1 \<or> True" by simp
  have paths: "eventImagePaths (EvData ?e ''image_paths'')
                 = [''/img/missing.gif'', ''/img/a.PNG'', ''/img/notes.txt'']"
    by (simp add: resolutionEvent_def eventImagePaths_def)
  have appr: "asBool (EvData ?e ''approved'')"
    by (simp add: resolutionEvent_def asBool_def)
  have d: "disk demo_call = demo_disk" and i: "arguments demo_call ''input'' = Some (AObject [])"
    by (simp_all add: demo_call_def)
  show ?thesis
    using decision_translated_to_response [OF 1 2 3 4 5, where create = "CreateApproval no_policy" and c = demo_call]
    by (simp add: paths appr d i demo_images)
qed

subsection \<open>A decision before the registration\<close>

text \<open>
  C1: the handle is registered only after \<open>CreateApprovalWithToolUseID\<close> has returned.
  In the run below a client decides the pending approval between the two: the listener
  finds no handle and skips the event, the call then registers and blocks; its channel
  is empty, the subscription is drained, the approval is resolved, a further decision
  is refused as already resolved, and the call's next action changes nothing.
\<close>

theorem resolution_before_registration_is_lost:
  "call_pc racy_t1 = Waiting 0
   \<and> chans (server racy_t1) 0 = []
   \<and> map buffer (subscriptions (eventBus (manager racy_t1))) = [[]]
   \<and> published (eventBus (manager racy_t1)) = [resolutionEvent ''t1'' True ''looks fine'' []]
   \<and> map_option ApprovalStatus (approvals (manager racy_t1) ''t1'') = Some ''approved''
   \<and> fst (Decide ''t1'' True ''looks fine'' [] (manager racy_t1)) = Inl AlreadyResolved
   \<and> step no_policy demo_call (HandlerStep True) racy_t1 = racy_t1"
  by (simp add: racy_t1_eval handlerStep_def handleRequestApproval_select_def Decide_def resolveKey_def)

text \<open>
  The loss is final. From the state reached by that run, whatever the call, the clients
  and the listener do next, the call stays blocked as long as its context is not
  cancelled: the state is kept by every action but the cancellation.
\<close>

lemma eventsFor_concat: "eventsFor t (concat xss) = concat (map (eventsFor t) xss)"
  by (induction xss) (simp_all add: eventsFor_def)

lemma eventsFor_deliver:
  "eventsFor t [e] = [] \<Longrightarrow> eventsFor t (buffer (deliver e sub)) = eventsFor t (buffer sub)"
  by (simp add: deliver_def eventsFor_def)

lemma eventsFor_Publish:
  assumes "eventsFor t [e] = []"
  shows "eventsFor t (concat (map buffer (subscriptions (Publish e bus))))
           = eventsFor t (concat (map buffer (subscriptions bus)))"
  using assms
  by (simp add: Publish_def eventsFor_concat comp_def eventsFor_deliver)

lemma Decide_other_buffers:
  assumes "resolveKey m k \<noteq> Some t"
  shows "eventsFor t (concat (map buffer (subscriptions (eventBus (snd (Decide k a c ps m))))))
           = eventsFor t (concat (map buffer (subscriptions (eventBus m))))"
proof -
  have "\<And>t'. resolveKey m k = Some t' \<Longrightarrow> eventsFor t [resolutionEvent t' a c ps] = []"
    using assms by (auto simp: eventsFor_resolutionEvent)
  then show ?thesis
    by (auto simp: Decide_def eventsFor_Publish split: option.splits)
qed

lemma stranded_handler:
  assumes "stranded sys"
  shows "handlerStep create c pick sys = sys"
  using assms by (simp add: stranded_def handlerStep_def handleRequestApproval_select_def)

lemma stranded_decide:
  assumes "stranded sys"
  shows "stranded (sys\<lparr>manager := snd (Decide k a c ps (manager sys))\<rparr>)"
proof (cases "resolveKey (manager sys) k = Some ''t1''")
  case True
  moreover have "\<not> pendingAt (manager sys) ''t1''"
    using assms by (simp add: stranded_def)
  ultimately have "snd (Decide k a c ps (manager sys)) = manager sys"
    by (simp add: Decide_not_pending [of "manager sys" "''t1''" k])
  then show ?thesis using assms by simp
next
  case False
  then have "approvals (snd (Decide k a c ps (manager sys))) ''t1'' = approvals (manager sys) ''t1''"
    by (rule Decide_other)
  moreover have "eventsFor ''t1'' (concat (map buffer (subscriptions (eventBus (snd (Decide k a c ps (manager sys)))))))
     = eventsFor ''t1'' (concat (map buffer (subscriptions (eventBus (manager sys)))))"
    using False by (rule Decide_other_buffers)
  ultimately show ?thesis
    using assms by (simp add: stranded_def pendingAt_def buffered_def)
qed

lemma stranded_listener:
  assumes "stranded sys"
  shows "stranded (listenerStep sys)"
proof (cases "subscriptions (eventBus (manager sys))")
  case Nil
  then show ?thesis using assms by (simp add: listenerStep_def)
next
  case (Cons sub subs)
  show ?thesis
  proof (cases "buffer sub")
    case Nil
    then show ?thesis using assms Cons by (simp add: listenerStep_def)
  next
    case (Cons e es)
    have ev: "eventsFor ''t1'' (e # es @ concat (map buffer subs)) = []"
      using assms \<open>subscriptions (eventBus (manager sys)) = sub # subs\<close> Cons
      by (simp add: stranded_def buffered_def)
    then have ne: "asString (EvData e ''tool_use_id'') \<noteq> ''t1''"
      and rest: "eventsFor ''t1'' (es @ concat (map buffer subs)) = []"
      by (auto simp: eventsFor_def split: if_splits)
    have "pendingApprovals (server sys) (asString (EvData e ''tool_use_id'')) = None"
      using assms ne by (simp add: stranded_def)
    then have same: "listenerEvent e (server sys) = server sys"
      by (rule listenerEvent_unmatched)
    show ?thesis
      using assms \<open>subscriptions (eventBus (manager sys)) = sub # subs\<close> Cons rest
      by (simp add: listenerStep_def same stranded_def buffered_def pendingAt_def)
  qed
qed

lemma stranded_run:
  assumes "stranded sys" and "CancelCall \<notin> set as"
  shows "stranded (run policy c as sys)"
  using assms
proof (induction as arbitrary: sys)
  case Nil
  then show ?case by simp
next
  case (Cons a as)
  have "stranded (step policy c a sys)"
  proof (cases a)
    case (HandlerStep pick)
    then show ?thesis using Cons.prems(1) by (simp add: stranded_handler)
  next
    case (ClientDecide d)
    then show ?thesis using Cons.prems(1) by (simp add: stranded_decide)
  next
    case ListenerStep
    then show ?thesis using Cons.prems(1) by (simp add: stranded_listener)
  next
    case CancelCall
    then show ?thesis using Cons.prems(2) by simp
  qed
  then show ?case using Cons by simp
qed

lemma stranded_racy_t1: "stranded racy_t1"
  by (simp add: racy_t1_eval stranded_def pendingAt_def buffered_def eventsFor_def)

lemma lost_resolution_never_delivered:
  assumes "CancelCall \<notin> set as"
  shows "call_pc (run policy demo_call as racy_t1) = Waiting 0"
  using stranded_run [OF stranded_racy_t1 assms] by (simp add: stranded_def)

section \<open>Properties of the ephemeral query\<close>

lemma wrap64_id: "- (2 ^ 63) \<le> x \<Longrightarrow> x < 2 ^ 63 \<Longrightarrow> wrap64 x = x"
  by (simp add: wrap64_def)

lemma recentEvents_last:
  assumes "0 < n" and "int (length events) < 2 ^ 63"
  shows "recentEvents events n = Some (lastEvents n events)"
proof (cases "int (length events) > n")
  case True
  have "wrap64 (int (length events) - n) = int (length events) - n"
    using assms True by (intro wrap64_id) simp_all
  moreover have "nat (int (length events) - n) = length events - nat n"
    using assms(1) by simp
  ultimately show ?thesis
    using True assms(1) by (simp add: recentEvents_def lastEvents_def Let_def)
next
  case False
  then have "length events - nat n = 0" by simp
  with False show ?thesis
    by (simp add: recentEvents_def lastEvents_def Let_def)
qed

lemma recentEvents_negative:
  assumes "n < 0" and "- (2 ^ 63) \<le> n" and "events \<noteq> []" and "int (length events) < 2 ^ 63"
  shows "recentEvents events n = None"
proof -
  let ?x = "int (length events) - n"
  have big: "int (length events) < ?x" and top: "?x < 2 ^ 64"
    using assms by simp_all
  have "wrap64 ?x < 0 \<or> int (length events) < wrap64 ?x"
  proof (cases "?x < 2 ^ 63")
    case True
    then have "wrap64 ?x = ?x"
      using big by (intro wrap64_id) simp_all
    with big show ?thesis by simp
  next
    case False
    then have "(?x + 2 ^ 63) mod 2 ^ 64 = ?x + 2 ^ 63 - 2 ^ 64"
      using top by (simp add: mod_pos_geq)
    then have "wrap64 ?x = ?x - 2 ^ 64"
      by (simp add: wrap64_def)
    with top show ?thesis by simp
  qed
  moreover have "n < int (length events)"
    using assms(1) by simp
  ultimately show ?thesis
    by (auto simp: recentEvents_def Let_def)
qed

lemma length_lastEvents: "0 < n \<Longrightarrow> int (length (lastEvents n events)) \<le> n"
  by (simp add: lastEvents_def)

lemma lastEvents_idem: "lastEvents n (lastEvents n events) = lastEvents n events"
  by (simp add: lastEvents_def)

lemma lastEvents_Nil_iff: "0 < n \<Longrightarrow> lastEvents n events = [] \<longleftrightarrow> events = []"
proof -
  assume "0 < n"
  then obtain k where "nat n = Suc k"
    by (cases "nat n") simp_all
  then show ?thesis
    by (cases events) (simp_all add: lastEvents_def)
qed

lemma addRecentEvents_last:
  assumes "0 < n" and "int (length events) < 2 ^ 63"
  shows "addRecentEvents parts (Some events) n = addRecentEvents parts (Some (lastEvents n events)) n"
proof -
  have "int (length (lastEvents n events)) < 2 ^ 63"
    using assms(2) by (simp add: lastEvents_def)
  then have "recentEvents (lastEvents n events) n = Some (lastEvents n events)"
    using recentEvents_last [OF assms(1), of "lastEvents n events"] by (simp add: lastEvents_idem)
  moreover have "recentEvents events n = Some (lastEvents n events)"
    using assms by (rule recentEvents_last)
  ultimately show ?thesis
    using lastEvents_Nil_iff [OF assms(1), of events]
    by (simp add: addRecentEvents_def)
qed

lemma HandleEphemeralChat_events_cong:
  assumes "addRecentEvents (sessionContextParts session) (gc st sid) (if MaxEvents r = 0 then 20 else MaxEvents r)
           = addRecentEvents (sessionContextParts session) (gc' st sid) (if MaxEvents r = 0 then 20 else MaxEvents r)"
    and "gs st sid = Some session"
  shows "HandleEphemeralChat client gs gc sid (Some r) st
           = HandleEphemeralChat client gs gc' sid (Some r) st"
  using assms by (cases client) (auto simp: HandleEphemeralChat_def Let_def)

lemma HandleEphemeralChat_no_session:
  assumes "gs st sid = None"
  shows "HandleEphemeralChat client gs gc sid (Some r) st
           = HandleEphemeralChat client gs gc' sid (Some r) st"
  using assms by (cases client) (auto simp: HandleEphemeralChat_def Let_def)

lemma HandleEphemeralChat_store: "store_after (HandleEphemeralChat client gs gc sid req st) = st"
  by (simp add: HandleEphemeralChat_def Let_def split: option.splits sum.splits prod.splits)

lemma runEphemeralQuery_config:
  "fst (runEphemeralQuery launch session query)
     = \<lparr>ConfigQuery = query, ConfigModel = ModelSonnet, ConfigOutputFormat = OutputJSON,
        MaxTurns = 1, ConfigWorkingDir = WorkingDir session\<rparr>"
  by (simp add: runEphemeralQuery_def Let_def)

lemma HandleEphemeralChat_launched:
  "map MaxTurns (launched (HandleEphemeralChat client gs gc sid req st)) = []
   \<or> map MaxTurns (launched (HandleEphemeralChat client gs gc sid req st)) = [1]"
proof -
  have *: "\<And>launch session query config r.
     runEphemeralQuery launch session query = (config, r) \<Longrightarrow> MaxTurns config = 1"
    using runEphemeralQuery_config by (metis fst_conv SessionConfig.select_convs(4))
  show ?thesis
    by (auto simp: HandleEphemeralChat_def Let_def dest: * split: option.splits sum.splits prod.splits)
qed

lemma HandleEphemeralChat_reads:
  assumes "gs st sid = gs st' sid" and "gc st sid = gc st' sid"
  shows "response (HandleEphemeralChat client gs gc sid req st)
           = response (HandleEphemeralChat client gs gc sid req st')"
    and "launched (HandleEphemeralChat client gs gc sid req st)
           = launched (HandleEphemeralChat client gs gc sid req st')"
  using assms
  by (auto simp: HandleEphemeralChat_def Let_def split: option.splits sum.splits prod.splits)

lemma HandleEphemeralChat_default:
  "HandleEphemeralChat client gs gc sid (Some (r\<lparr>MaxEvents := 0\<rparr>)) st
     = HandleEphemeralChat client gs gc sid (Some (r\<lparr>MaxEvents := 20\<rparr>)) st"
  by (cases client; cases "gs st sid") (auto simp: HandleEphemeralChat_def Let_def)

text \<open>
  C9: the ephemeral query handler returns the store as it got it; it launches at most
  one model query, with \<open>MaxTurns\<close> 1; a request with \<open>MaxEvents\<close> 0 is handled as one
  with 20; its reply and its query are the same on two stores that give the same session
  record and the same conversation for the session; and with a positive number of
  events to look at, the whole outcome is the same as on the conversation cut down to
  its last events of that number, so nothing older reaches the prompt.
\<close>

theorem ephemeral_chat_recent_events_single_turn_no_write:
  "store_after (HandleEphemeralChat client gs gc sid req st) = st
   \<and> (map MaxTurns (launched (HandleEphemeralChat client gs gc sid req st)) = []
      \<or> map MaxTurns (launched (HandleEphemeralChat client gs gc sid req st)) = [1])
   \<and> HandleEphemeralChat client gs gc sid (Some (r\<lparr>MaxEvents := 0\<rparr>)) st
       = HandleEphemeralChat client gs gc sid (Some (r\<lparr>MaxEvents := 20\<rparr>)) st
   \<and> (gs st sid = gs st' sid \<and> gc st sid = gc st' sid \<longrightarrow>
        response (HandleEphemeralChat client gs gc sid req st)
          = response (HandleEphemeralChat client gs gc sid req st')
        \<and> launched (HandleEphemeralChat client gs gc sid req st)
          = launched (HandleEphemeralChat client gs gc sid req st'))
   \<and> (0 < effectiveMaxEvents r \<and> int (length events) < 2 ^ 63 \<longrightarrow>
        HandleEphemeralChat client gs (\<lambda>st sid. Some events) sid (Some r) st
          = HandleEphemeralChat client gs (\<lambda>st sid. Some (lastEvents (effectiveMaxEvents r) events)) sid (Some r) st
        \<and> int (length (lastEvents (effectiveMaxEvents r) events)) \<le> effectiveMaxEvents r)"
proof -
  have "HandleEphemeralChat client gs (\<lambda>st sid. Some events) sid (Some r) st
          = HandleEphemeralChat client gs (\<lambda>st sid. Some (lastEvents (effectiveMaxEvents r) events)) sid (Some r) st"
    if pos: "0 < effectiveMaxEvents r" and len: "int (length events) < 2 ^ 63"
  proof (cases "gs st sid")
    case None
    then show ?thesis by (rule HandleEphemeralChat_no_session)
  next
    case (Some session)
    have "addRecentEvents (sessionContextParts session) (Some events) (effectiveMaxEvents r)
          = addRecentEvents (sessionContextParts session) (Some (lastEvents (effectiveMaxEvents r) events))
              (effectiveMaxEvents r)"
      using pos len by (rule addRecentEvents_last)
    then show ?thesis
      using Some by (intro HandleEphemeralChat_events_cong) (simp_all add: effectiveMaxEvents_def)
  qed
  then show ?thesis
    using HandleEphemeralChat_store [of client gs gc sid req st]
      HandleEphemeralChat_launched [of client gs gc sid req st]
      HandleEphemeralChat_default [of client gs gc sid r st]
      HandleEphemeralChat_reads [of gs st sid st' gc client req]
      length_lastEvents [of "effectiveMaxEvents r" events]
    by blast
qed

theorem ephemeral_chat_recent_events_single_turn_no_write_witness:
  "store_after (HandleEphemeralChat (Some echo_client) storeGetSession storeGetSessionConversation
       ''S1'' (Some demo_request) demo_store) = demo_store
   \<and> map MaxTurns (launched (HandleEphemeralChat (Some echo_client) storeGetSession
       storeGetSessionConversation ''S1'' (Some demo_request) demo_store)) = [1]
   \<and> HandleEphemeralChat (Some echo_client) storeGetSession (\<lambda>st sid. Some demo_events)
       ''S1'' (Some demo_request) demo_store
     = HandleEphemeralChat (Some echo_client) storeGetSession (\<lambda>st sid. Some (drop 1 demo_events))
       ''S1'' (Some demo_request) demo_store"
proof -
  have n: "effectiveMaxEvents demo_request = 2"
    by (simp add: effectiveMaxEvents_def demo_request_def)
  have l: "lastEvents 2 demo_events = drop 1 demo_events"
    by (simp add: lastEvents_def demo_events_def)
  have len: "int (length demo_events) < 2 ^ 63"
    by (simp add: demo_events_def)
  have one: "launched (HandleEphemeralChat (Some echo_client) storeGetSession
       storeGetSessionConversation ''S1'' (Some demo_request) demo_store) \<noteq> []"
    by (simp add: HandleEphemeralChat_def storeGetSession_def storeGetSessionConversation_def
        demo_store_def demo_request_def addRecentEvents_def recentEvents_def wrap64_def
        demo_events_def runEphemeralQuery_def echo_client_def Let_def)
  show ?thesis
    using ephemeral_chat_recent_events_single_turn_no_write
      [where client = "Some echo_client" and gs = storeGetSession
         and gc = storeGetSessionConversation and sid = "''S1''" and req = "Some demo_request"
         and st = demo_store and st' = demo_store and r = demo_request and events = demo_events]
      one len
    by (simp add: n l)
qed

end
